theory Spec2Isabelle
  imports Main "HOL-Library.Multiset"
begin

section \<open>JavaScript values used by the course module\<close>

text \<open>
  The module is dynamically typed. Two places depend on that: user ids and
  enrolled-course references may be numbers or strings (they are compared with
  \<^verbatim>\<open>===\<close> in \<^verbatim>\<open>enrollUser\<close> and through \<^verbatim>\<open>String(..)\<close> in
  \<^verbatim>\<open>courseDeletion\<close>), and the \<^verbatim>\<open>categories\<close> field of a patch is tested with
  \<^verbatim>\<open>Array.isArray\<close>. Numbers are modelled as \<open>int\<close>: ids and counters are integers,
  and \<^verbatim>\<open>NaN\<close>, infinities, fractions and the rounding of doubles above \<open>2^53\<close> are
  outside the model. On the primitives below \<^verbatim>\<open>===\<close> is equality of the datatype.
\<close>

datatype prim = JUndefined | JNull | JBool bool | JNum int | JStr string

fun truthy :: "prim \<Rightarrow> bool" where
  "truthy JUndefined = False"
| "truthy JNull = False"
| "truthy (JBool b) = b"
| "truthy (JNum n) = (n \<noteq> 0)"
| "truthy (JStr s) = (s \<noteq> [])"

text \<open>Decimal digits of a natural number, most significant first.\<close>

definition digit_char :: "nat \<Rightarrow> char" where
  "digit_char d = ''0123456789'' ! d"

fun digits :: "nat \<Rightarrow> string" where
  "digits n = (if n < 10 then [digit_char n] else digits (n div 10) @ [digit_char (n mod 10)])"

declare digits.simps [simp del]

text \<open>\<^verbatim>\<open>String(v)\<close> on a primitive.\<close>

fun String :: "prim \<Rightarrow> string" where
  "String JUndefined = ''undefined''"
| "String JNull = ''null''"
| "String (JBool b) = (if b then ''true'' else ''false'')"
| "String (JNum n) = (if n < 0 then CHR ''-'' # digits (nat (- n)) else digits (nat n))"
| "String (JStr s) = s"

text \<open>
  The value of a \<^verbatim>\<open>categories\<close> property: an array of strings, or some
  primitive (\<open>CPrim JUndefined\<close> also stands for a property that is not there).
\<close>

datatype catfield = CArr "string list" | CPrim prim

fun cat_truthy :: "catfield \<Rightarrow> bool" where
  "cat_truthy (CArr xs) = True"
| "cat_truthy (CPrim v) = truthy v"

fun isArray :: "catfield \<Rightarrow> bool" where
  "isArray (CArr xs) = True"
| "isArray (CPrim v) = False"

section \<open>Courses\<close>

text \<open>
  A stored course. \<open>cid\<close> is the \<^verbatim>\<open>id\<close> property. A property that may be
  missing or falsy in a stored object is an option; the code reads each of them
  through \<^verbatim>\<open>|| default\<close> or \<^verbatim>\<open>?.\<close>. An entry of \<open>students\<close> is the pair
  \<^verbatim>\<open>[userId, dateEnrolled]\<close>. Arrays are values here: two stored courses never
  share one \<^verbatim>\<open>students\<close> array.
\<close>

record course =
  cid :: int
  title :: "string option"
  description :: "string option"
  instructor :: "string option"
  students :: "(prim \<times> string) list option"
  categories :: catfield
  visits :: "int option"
  price :: "int option"
  duration :: "string option"

text \<open>
  \<^verbatim>\<open>Partial<Course>\<close>, the argument of \<^verbatim>\<open>createCourse\<close> and \<^verbatim>\<open>editCourse\<close>:
  \<open>None\<close> is a property that is absent from the object.
\<close>

record partial =
  p_id :: "int option"
  p_title :: "string option"
  p_description :: "string option"
  p_instructor :: "string option"
  p_students :: "(prim \<times> string) list option"
  p_categories :: "catfield option"
  p_visits :: "int option"
  p_price :: "int option"
  p_duration :: "string option"

section \<open>Array helpers of the language\<close>

text \<open>
  \<^verbatim>\<open>Array.prototype.sort(cmp)\<close>: the language requires a stable sort, ordered by the
  comparator when the comparator is consistent. It is modelled by a stable insertion
  sort driven by the sign of \<open>cmp\<close>, as the comparator of the source is.
\<close>

fun sort_insert :: "('a \<Rightarrow> 'a \<Rightarrow> int) \<Rightarrow> 'a \<Rightarrow> 'a list \<Rightarrow> 'a list" where
  "sort_insert cmp x [] = [x]"
| "sort_insert cmp x (y # ys) =
     (if cmp x y \<le> 0 then x # y # ys else y # sort_insert cmp x ys)"

definition array_sort :: "('a \<Rightarrow> 'a \<Rightarrow> int) \<Rightarrow> 'a list \<Rightarrow> 'a list" where
  "array_sort cmp xs = foldr (sort_insert cmp) xs []"

text \<open>\<^verbatim>\<open>xs.slice(0, n)\<close>.\<close>

definition slice0 :: "nat \<Rightarrow> 'a list \<Rightarrow> 'a list" where
  "slice0 n xs = take n xs"

text \<open>\<^verbatim>\<open>[...new Set(xs)]\<close>: the distinct elements in order of first occurrence.\<close>

fun set_spread :: "'a list \<Rightarrow> 'a list" where
  "set_spread [] = []"
| "set_spread (x # xs) = x # set_spread (filter (\<lambda>y. y \<noteq> x) xs)"

text \<open>\<^verbatim>\<open>xs.findIndex(p)\<close>: the first index whose element satisfies \<open>p\<close>, or \<open>-1\<close>.\<close>

fun findIndex :: "('a \<Rightarrow> bool) \<Rightarrow> 'a list \<Rightarrow> int" where
  "findIndex p [] = - 1"
| "findIndex p (x # xs) =
     (if p x then 0 else (let i = findIndex p xs in if i = - 1 then - 1 else i + 1))"

text \<open>\<^verbatim>\<open>xs.splice(i, 1)\<close> for an index inside the array.\<close>

definition splice1 :: "nat \<Rightarrow> 'a list \<Rightarrow> 'a list" where
  "splice1 i xs = take i xs @ drop (Suc i) xs"

text \<open>
  An object found with \<^verbatim>\<open>xs.find(p)\<close> and then mutated in place: the first element
  that satisfies \<open>p\<close> is replaced by its image.
\<close>

fun update_first :: "('a \<Rightarrow> bool) \<Rightarrow> ('a \<Rightarrow> 'a) \<Rightarrow> 'a list \<Rightarrow> 'a list" where
  "update_first p f [] = []"
| "update_first p f (x # xs) = (if p x then f x # xs else x # update_first p f xs)"

section \<open>The page state\<close>

text \<open>
  What \<^verbatim>\<open>JSON.parse(localStorage.getItem(key))\<close> does on the stored item: it yields
  \<^verbatim>\<open>null\<close> when the key is absent (\<open>Absent\<close>), throws on text that is not JSON, as
  does a storage that cannot be read (\<open>Corrupt\<close>), and otherwise yields a falsy value
  (\<open>Falsy\<close>) or the persisted catalog. An item that parses to a truthy value other
  than an array of courses is outside the model.
\<close>

datatype stored = Absent | Corrupt | Falsy | Catalog "course list"

text \<open>HTTP requests the remote-backed module issues, and what \<^verbatim>\<open>fetch\<close> answers.\<close>

datatype request = GetCourses | PostAdd course | DeleteRequest int

datatype 'a response = NetworkError | HttpError | HttpOk 'a

text \<open>
  Modelled from the spec: the data of the User Directory and of the Progress Tracker
  (\<^verbatim>\<open>userSystem.js\<close> and \<^verbatim>\<open>progressSystem.js\<close>, which the module imports). A user
  has a role and a list of references to the courses it is enrolled in; a progress or
  certificate record belongs to a user and refers to a course. A \<open>call\<close> records one
  call the module makes to a collaborator: \<open>UpdateUser r ec\<close> is
  \<^verbatim>\<open>updateUser(u, { enrolledCourses: ec })\<close> for the user object at position \<open>r\<close>.
\<close>

record user =
  role :: string
  enrolledCourses :: "prim list"

record progress_rec =
  pr_user :: prim
  pr_course :: int

datatype call = CleanupCourseData int | ListUsers | UpdateUser nat "prim list"

text \<open>
  \<open>courseList\<close> is the module variable. \<open>storage\<close> and \<open>storage_writable\<close> (whether
  \<^verbatim>\<open>setItem\<close> succeeds) belong to the local-storage module, \<open>requests\<close> (the log of
  requests sent) to the remote-backed one. \<open>calls\<close> logs the calls made to the
  collaborators.
\<close>

record repo =
  courseList :: "course list"
  storage :: stored
  storage_writable :: bool
  requests :: "request list"
  users :: "user list"
  progress :: "progress_rec list"
  calls :: "call list"

section \<open>Analytics\<close>

record analytics =
  totalCourses :: nat
  totalEnrollments :: nat
  topCourses :: "course list"
  topVisited :: "course list"

text \<open>\<^verbatim>\<open>c.students?.length || 0\<close> and \<^verbatim>\<open>c.visits || 0\<close>.\<close>

definition students_length :: "course \<Rightarrow> nat" where
  "students_length c = (case students c of None \<Rightarrow> 0 | Some xs \<Rightarrow> length xs)"

definition visits_or0 :: "course \<Rightarrow> int" where
  "visits_or0 c = (case visits c of None \<Rightarrow> 0 | Some v \<Rightarrow> if v \<noteq> 0 then v else 0)"

definition by_enrollment :: "course \<Rightarrow> course \<Rightarrow> int" where
  "by_enrollment a b = int (students_length b) - int (students_length a)"

definition by_visits :: "course \<Rightarrow> course \<Rightarrow> int" where
  "by_visits a b = visits_or0 b - visits_or0 a"

text \<open>
  \<^verbatim>\<open>getAnalytics\<close> is the same in both modules. The sorts run on copies
  (\<^verbatim>\<open>[...courseList]\<close>), so the state is handed back as it came.
\<close>

definition getAnalytics :: "repo \<Rightarrow> analytics \<times> repo" where
  "getAnalytics s =
     (let totalCourses = length (courseList s);
          totalEnrollments = foldl (\<lambda>acc c. acc + students_length c) 0 (courseList s);
          topCourses = slice0 3 (array_sort by_enrollment (courseList s));
          topVisited = slice0 3 (array_sort by_visits (courseList s))
      in (\<lparr>totalCourses = totalCourses, totalEnrollments = totalEnrollments,
           topCourses = topCourses, topVisited = topVisited\<rparr>, s))"

section \<open>The local-storage module\<close>

subsection \<open>Loading and saving\<close>

definition seed :: "course list" where
  "seed =
     [\<lparr>cid = 1, title = Some ''Multimedia Basics'', description = Some ''Intro to multimedia'',
       instructor = Some ''Jana'', students = Some [],
       categories = CArr [''multimedia'', ''basics''], visits = Some 0, price = Some 200,
       duration = Some ''3 Weeks''\<rparr>,
      \<lparr>cid = 2, title = Some ''Graphic Design'', description = Some ''Basics of GD'',
       instructor = Some ''Sama'', students = Some [],
       categories = CArr [''graphic'', ''design''], visits = Some 0, price = Some 250,
       duration = Some ''4 Weeks''\<rparr>]"

text \<open>
  \<^verbatim>\<open>loadCourses\<close>: the parsed item when it is truthy, the empty array when it is falsy
  (\<open>Absent\<close>, \<open>Falsy\<close>) or when parsing throws (\<open>Corrupt\<close>).
\<close>

definition loadCourses :: "stored \<Rightarrow> course list" where
  "loadCourses st =
     (case st of Absent \<Rightarrow> [] | Falsy \<Rightarrow> [] | Corrupt \<Rightarrow> [] | Catalog cl \<Rightarrow> cl)"

text \<open>Every array is truthy, the empty one too.\<close>

definition array_truthy :: "'a list \<Rightarrow> bool" where
  "array_truthy xs = True"

text \<open>The initial value of the module variable: \<^verbatim>\<open>loadCourses() || [ .. seed .. ]\<close>.\<close>

definition initial_courseList :: "stored \<Rightarrow> course list" where
  "initial_courseList st = (let l = loadCourses st in if array_truthy l then l else seed)"

definition saveCourses :: "repo \<Rightarrow> repo" where
  "saveCourses s = (if storage_writable s then s\<lparr>storage := Catalog (courseList s)\<rparr> else s)"

subsection \<open>Identifiers\<close>

definition findCourseIndex :: "int \<Rightarrow> repo \<Rightarrow> int" where
  "findCourseIndex i s = findIndex (\<lambda>c. cid c = i) (courseList s)"

text \<open>
  \<^verbatim>\<open>_generateUniqueCourseId\<close>: 1 on the empty catalog, otherwise
  \<^verbatim>\<open>Math.max(...ids) + 1\<close>; the case distinction is the length test, so the maximum
  is only taken of a non-empty list.
\<close>

definition generateUniqueCourseId :: "repo \<Rightarrow> int" where
  "generateUniqueCourseId s =
     (case map cid (courseList s) of [] \<Rightarrow> 1 | i # is \<Rightarrow> (let maxId = fold max is i in maxId + 1))"

subsection \<open>createCourse\<close>

definition has_title :: "partial \<Rightarrow> bool" where
  "has_title course = (case p_title course of None \<Rightarrow> False | Some t \<Rightarrow> t \<noteq> [])"

text \<open>The object literal of \<^verbatim>\<open>createCourse\<close>: the argument's properties, then the defaults.\<close>

definition newCourse :: "partial \<Rightarrow> int \<Rightarrow> course" where
  "newCourse course newId =
     \<lparr>cid = newId,
      title = p_title course,
      description = p_description course,
      instructor = p_instructor course,
      students = Some (case p_students course of None \<Rightarrow> [] | Some xs \<Rightarrow> xs),
      categories = (case p_categories course of None \<Rightarrow> CArr []
                    | Some v \<Rightarrow> if cat_truthy v then v else CArr []),
      visits = Some (case p_visits course of None \<Rightarrow> 0 | Some v \<Rightarrow> if v \<noteq> 0 then v else 0),
      price = Some (case p_price course of None \<Rightarrow> 0 | Some v \<Rightarrow> if v \<noteq> 0 then v else 0),
      duration = Some (case p_duration course of None \<Rightarrow> ''N/A''
                       | Some d \<Rightarrow> if d \<noteq> [] then d else ''N/A'')\<rparr>"

text \<open>The argument \<open>None\<close> is \<^verbatim>\<open>null\<close> or \<^verbatim>\<open>undefined\<close>; the result \<open>None\<close> is \<^verbatim>\<open>null\<close>.\<close>

definition createCourse :: "partial option \<Rightarrow> repo \<Rightarrow> course option \<times> repo" where
  "createCourse arg s =
     (case arg of None \<Rightarrow> (None, s)
      | Some course \<Rightarrow>
          if \<not> has_title course then (None, s)
          else (let newId = generateUniqueCourseId s;
                    c = newCourse course newId;
                    s1 = s\<lparr>courseList := courseList s @ [c]\<rparr>
                in (Some c, saveCourses s1)))"

subsection \<open>editCourse\<close>

datatype error = TypeError

text \<open>
  \<^verbatim>\<open>[...v]\<close> on a \<^verbatim>\<open>categories\<close> value: the elements of an array, the characters of a
  string, and a \<^verbatim>\<open>TypeError\<close> on anything else.
\<close>

fun spread :: "catfield \<Rightarrow> error + string list" where
  "spread (CArr xs) = Inr xs"
| "spread (CPrim (JStr str)) = Inr (map (\<lambda>c. [c]) str)"
| "spread (CPrim v) = Inl TypeError"

text \<open>
  \<^verbatim>\<open>courseList[idx].categories || []\<close>, and the block guarded by
  \<^verbatim>\<open>if (data.categories)\<close>, which rewrites \<^verbatim>\<open>data.categories\<close>.
\<close>

definition oldCategories :: "course \<Rightarrow> catfield" where
  "oldCategories c = (if cat_truthy (categories c) then categories c else CArr [])"

definition edit_categories :: "course \<Rightarrow> partial \<Rightarrow> error + partial" where
  "edit_categories old data =
     (case p_categories data of None \<Rightarrow> Inr data
      | Some v \<Rightarrow>
          if cat_truthy v then
            (let new = (if isArray v then v else CArr [])
             in case spread (oldCategories old) of Inl e \<Rightarrow> Inl e
                | Inr os \<Rightarrow> (case spread new of Inl e \<Rightarrow> Inl e
                    | Inr ns \<Rightarrow> Inr (data\<lparr>p_categories := Some (CArr (set_spread (os @ ns)))\<rparr>)))
          else Inr data)"

text \<open>\<^verbatim>\<open>{ ...c, ...data }\<close>: every property present in \<open>data\<close> replaces the one of \<open>c\<close>.\<close>

definition merge :: "course \<Rightarrow> partial \<Rightarrow> course" where
  "merge c data =
     \<lparr>cid = (case p_id data of None \<Rightarrow> cid c | Some i \<Rightarrow> i),
      title = (case p_title data of None \<Rightarrow> title c | Some t \<Rightarrow> Some t),
      description = (case p_description data of None \<Rightarrow> description c | Some d \<Rightarrow> Some d),
      instructor = (case p_instructor data of None \<Rightarrow> instructor c | Some i \<Rightarrow> Some i),
      students = (case p_students data of None \<Rightarrow> students c | Some xs \<Rightarrow> Some xs),
      categories = (case p_categories data of None \<Rightarrow> categories c | Some v \<Rightarrow> v),
      visits = (case p_visits data of None \<Rightarrow> visits c | Some v \<Rightarrow> Some v),
      price = (case p_price data of None \<Rightarrow> price c | Some v \<Rightarrow> Some v),
      duration = (case p_duration data of None \<Rightarrow> duration c | Some d \<Rightarrow> Some d)\<rparr>"

text \<open>
  The result is \<open>Inl TypeError\<close> when the spread throws (the catalog is then as it
  was), \<open>Inr None\<close> for \<^verbatim>\<open>null\<close>, and \<open>Inr (Some c)\<close> for the updated course.
\<close>

definition editCourse :: "int \<Rightarrow> partial \<Rightarrow> repo \<Rightarrow> (error + course option) \<times> repo" where
  "editCourse i data s =
     (let idx = findCourseIndex i s in
      if idx = - 1 then (Inr None, s)
      else (case edit_categories (courseList s ! nat idx) data of
              Inl e \<Rightarrow> (Inl e, s)
            | Inr data' \<Rightarrow>
                (let c = merge (courseList s ! nat idx) data';
                     s1 = s\<lparr>courseList := (courseList s)[nat idx := c]\<rparr>
                 in (Inr (Some c), saveCourses s1))))"

subsection \<open>deleteCourse, getCourse, listCourses, incrementVisits, enrollUser\<close>

definition deleteCourse :: "int \<Rightarrow> repo \<Rightarrow> bool \<times> repo" where
  "deleteCourse i s =
     (let idx = findCourseIndex i s in
      if idx = - 1 then (False, s)
      else (True, saveCourses (s\<lparr>courseList := splice1 (nat idx) (courseList s)\<rparr>)))"

definition getCourse :: "int \<Rightarrow> repo \<Rightarrow> course option" where
  "getCourse i s = find (\<lambda>c. cid c = i) (courseList s)"

definition listCourses :: "repo \<Rightarrow> course list \<times> repo" where
  "listCourses s = (courseList s, s)"

text \<open>The course found by \<^verbatim>\<open>getCourse\<close> is an object of the catalog, mutated in place.\<close>

definition mutate_course :: "int \<Rightarrow> (course \<Rightarrow> course) \<Rightarrow> repo \<Rightarrow> repo" where
  "mutate_course i f s = s\<lparr>courseList := update_first (\<lambda>c. cid c = i) f (courseList s)\<rparr>"

definition incrementVisits :: "int \<Rightarrow> repo \<Rightarrow> int option \<times> repo" where
  "incrementVisits courseId s =
     (case getCourse courseId s of None \<Rightarrow> (None, s)
      | Some c \<Rightarrow>
          (let v = visits_or0 c + 1;
               s1 = mutate_course courseId (\<lambda>c. c\<lparr>visits := Some v\<rparr>) s
           in (Some v, saveCourses s1)))"

text \<open>
  \<^verbatim>\<open>c.students || []\<close>. In \<^verbatim>\<open>enrollUser\<close>, \<open>now\<close> is what
  \<^verbatim>\<open>new Date().toISOString()\<close> returns at the call.
\<close>

definition students_or_empty :: "course \<Rightarrow> (prim \<times> string) list" where
  "students_or_empty c = (case students c of None \<Rightarrow> [] | Some xs \<Rightarrow> xs)"

definition enrollUser :: "prim \<Rightarrow> int \<Rightarrow> string \<Rightarrow> repo \<Rightarrow> bool \<times> repo" where
  "enrollUser userId courseId now s =
     (case getCourse courseId s of None \<Rightarrow> (False, s)
      | Some c \<Rightarrow>
          (let sts = students_or_empty c;
               s1 = mutate_course courseId (\<lambda>c. c\<lparr>students := Some sts\<rparr>) s
           in if list_ex (\<lambda>st. fst st = userId) sts then (False, s1)
              else (True, saveCourses
                      (mutate_course courseId (\<lambda>c. c\<lparr>students := Some (sts @ [(userId, now)])\<rparr>) s1))))"

definition resetAllCourses :: "repo \<Rightarrow> repo" where
  "resetAllCourses s = s\<lparr>courseList := [], storage := Absent\<rparr>"

subsection \<open>The collaborators\<close>

text \<open>
  Modelled from the spec: \<^verbatim>\<open>cleanupCourseData\<close> of the Progress Tracker
  (\<^verbatim>\<open>progressSystem.js\<close>), which removes the progress and certificate records that
  refer to the course.
\<close>

definition cleanupCourseData :: "int \<Rightarrow> repo \<Rightarrow> repo" where
  "cleanupCourseData courseId s =
     s\<lparr>progress := filter (\<lambda>r. pr_course r \<noteq> courseId) (progress s),
       calls := calls s @ [CleanupCourseData courseId]\<rparr>"

text \<open>
  Modelled from the spec: \<^verbatim>\<open>listUsers\<close> of the User Directory (\<^verbatim>\<open>userSystem.js\<close>),
  which returns the current user collection. A user object is handed out as its
  position in the directory together with its record.
\<close>

definition listUsers :: "repo \<Rightarrow> (nat \<times> user) list \<times> repo" where
  "listUsers s = (enumerate 0 (users s), s\<lparr>calls := calls s @ [ListUsers]\<rparr>)"

text \<open>
  Modelled from the spec: \<^verbatim>\<open>updateUser\<close> of the User Directory, which persists a
  shallow patch to one user record; the only patch the module sends is
  \<^verbatim>\<open>{ enrolledCourses: .. }\<close>.
\<close>

definition updateUser :: "nat \<Rightarrow> prim list \<Rightarrow> repo \<Rightarrow> repo" where
  "updateUser r ec s =
     s\<lparr>users := (if r < length (users s)
                  then (users s)[r := (users s ! r)\<lparr>enrolledCourses := ec\<rparr>]
                  else users s),
       calls := calls s @ [UpdateUser r ec]\<rparr>"

subsection \<open>courseDeletion\<close>

definition remainingCourses :: "int \<Rightarrow> user \<Rightarrow> prim list" where
  "remainingCourses courseId student =
     filter (\<lambda>course. String course \<noteq> String (JNum courseId)) (enrolledCourses student)"

text \<open>The part of \<^verbatim>\<open>courseDeletion\<close> after the course has been deleted.\<close>

definition cascade :: "int \<Rightarrow> repo \<Rightarrow> repo" where
  "cascade courseId s1 =
     (let s2 = cleanupCourseData courseId s1;
          (us, s3) = listUsers s2;
          studs = filter (\<lambda>(r, u). role u = ''student'') us
      in foldl (\<lambda>st (r, student). updateUser r (remainingCourses courseId student) st) s3 studs)"

definition courseDeletion :: "int \<Rightarrow> repo \<Rightarrow> bool \<times> repo" where
  "courseDeletion courseId s =
     (let (courseDeleted, s1) = deleteCourse courseId s in
      if \<not> courseDeleted then (False, s1) else (True, cascade courseId s1))"

section \<open>The remote-backed module\<close>

text \<open>
  The answers of the backend are arguments of the operations: the answer to
  \<^verbatim>\<open>GET /api/courses\<close> carries the catalog, the others carry nothing the module
  reads. \<open>NetworkError\<close> is a rejected \<^verbatim>\<open>fetch\<close> (or a body that is not JSON),
  \<open>HttpError\<close> an answer whose \<^verbatim>\<open>ok\<close> is false. Each operation runs to its end before
  the next one starts; what other handlers may do while an operation awaits the
  backend is not modelled.
\<close>

definition fetchCourses :: "course list response \<Rightarrow> repo \<Rightarrow> course list \<times> repo" where
  "fetchCourses resp s =
     (let s0 = s\<lparr>requests := requests s @ [GetCourses]\<rparr> in
      case resp of HttpOk data \<Rightarrow> (data, s0\<lparr>courseList := data\<rparr>)
      | HttpError \<Rightarrow> ([], s0)
      | NetworkError \<Rightarrow> ([], s0))"

definition createCourse_remote ::
    "partial option \<Rightarrow> course list response \<Rightarrow> unit response \<Rightarrow> repo \<Rightarrow> course option \<times> repo" where
  "createCourse_remote arg fetched added s =
     (case arg of None \<Rightarrow> (None, s)
      | Some course \<Rightarrow>
          if \<not> has_title course then (None, s)
          else (let s0 = (if length (courseList s) = 0 then snd (fetchCourses fetched s) else s);
                    newId = generateUniqueCourseId s0;
                    c = newCourse course newId;
                    s1 = s0\<lparr>requests := requests s0 @ [PostAdd c]\<rparr>
                in case added of
                     HttpOk u \<Rightarrow> (Some c, s1\<lparr>courseList := courseList s1 @ [c]\<rparr>)
                   | HttpError \<Rightarrow> (None, s1)
                   | NetworkError \<Rightarrow> (None, s1)))"

definition editCourse_remote :: "int \<Rightarrow> partial \<Rightarrow> repo \<Rightarrow> (error + course option) \<times> repo" where
  "editCourse_remote i data s =
     (let idx = findCourseIndex i s in
      if idx = - 1 then (Inr None, s)
      else (case edit_categories (courseList s ! nat idx) data of
              Inl e \<Rightarrow> (Inl e, s)
            | Inr data' \<Rightarrow>
                (let c = merge (courseList s ! nat idx) data';
                     s1 = s\<lparr>courseList := (courseList s)[nat idx := c]\<rparr>
                 in (Inr (Some c), s1))))"

definition deleteCourse_remote :: "int \<Rightarrow> unit response \<Rightarrow> repo \<Rightarrow> bool \<times> repo" where
  "deleteCourse_remote i deleted s =
     (let idx = findCourseIndex i s in
      if idx = - 1 then (False, s)
      else (let s1 = s\<lparr>requests := requests s @ [DeleteRequest i]\<rparr> in
            case deleted of
              HttpOk u \<Rightarrow> (True, s1\<lparr>courseList := splice1 (nat idx) (courseList s1)\<rparr>)
            | HttpError \<Rightarrow> (False, s1)
            | NetworkError \<Rightarrow> (False, s1)))"

definition listCourses_remote :: "course list response \<Rightarrow> repo \<Rightarrow> course list \<times> repo" where
  "listCourses_remote fetched s =
     (if length (courseList s) = 0 then fetchCourses fetched s else (courseList s, s))"

definition incrementVisits_remote :: "int \<Rightarrow> repo \<Rightarrow> int option \<times> repo" where
  "incrementVisits_remote courseId s =
     (case getCourse courseId s of None \<Rightarrow> (None, s)
      | Some c \<Rightarrow>
          (let v = visits_or0 c + 1
           in (Some v, mutate_course courseId (\<lambda>c. c\<lparr>visits := Some v\<rparr>) s)))"

definition enrollUser_remote :: "prim \<Rightarrow> int \<Rightarrow> string \<Rightarrow> repo \<Rightarrow> bool \<times> repo" where
  "enrollUser_remote userId courseId now s =
     (case getCourse courseId s of None \<Rightarrow> (False, s)
      | Some c \<Rightarrow>
          (let sts = students_or_empty c;
               s1 = mutate_course courseId (\<lambda>c. c\<lparr>students := Some sts\<rparr>) s
           in if list_ex (\<lambda>st. fst st = userId) sts then (False, s1)
              else (True, mutate_course courseId
                            (\<lambda>c. c\<lparr>students := Some (sts @ [(userId, now)])\<rparr>) s1)))"

definition courseDeletion_remote :: "int \<Rightarrow> unit response \<Rightarrow> repo \<Rightarrow> bool \<times> repo" where
  "courseDeletion_remote courseId deleted s =
     (let (courseDeleted, s1) = deleteCourse_remote courseId deleted s in
      if \<not> courseDeleted then (False, s1) else (True, cascade courseId s1))"

section \<open>Specification-side notions and example data\<close>

text \<open>The id rule in the words of the specification: the largest id plus one, or 1.\<close>

definition next_id :: "course list \<Rightarrow> int" where
  "next_id cl = (if cl = [] then 1 else Max (cid ` set cl) + 1)"

text \<open>A run of \<^verbatim>\<open>createCourse\<close> calls, one per argument, with the results in order.\<close>

fun createCourses :: "partial list \<Rightarrow> repo \<Rightarrow> course option list \<times> repo" where
  "createCourses [] s = ([], s)"
| "createCourses (p # ps) s =
     (let (r, s1) = createCourse (Some p) s; (rs, s2) = createCourses ps s1 in (r # rs, s2))"

text \<open>
  A page on which nothing has been stored and no collaborator holds anything, the same
  page with the two seed courses as its catalog, and the argument \<^verbatim>\<open>{ title: t }\<close>.
\<close>

definition empty_repo :: repo where
  "empty_repo = \<lparr>courseList = [], storage = Absent, storage_writable = True, requests = [],
     users = [], progress = [], calls = []\<rparr>"

definition seeded_repo :: repo where
  "seeded_repo = empty_repo\<lparr>courseList := seed\<rparr>"

definition titled :: "string \<Rightarrow> partial" where
  "titled t = \<lparr>p_id = None, p_title = Some t, p_description = None, p_instructor = None,
     p_students = None, p_categories = None, p_visits = None, p_price = None, p_duration = None\<rparr>"

text \<open>
  What a patch contributes to the categories in the words of the specification: the
  elements of an array, and nothing for a value that is not an array. \<open>cats_patch v\<close>
  is the patch \<^verbatim>\<open>{ categories: v }\<close>.
\<close>

definition patch_list :: "catfield \<Rightarrow> string list" where
  "patch_list v = (case v of CArr ns \<Rightarrow> ns | CPrim u \<Rightarrow> [])"

definition cats_patch :: "catfield \<Rightarrow> partial" where
  "cats_patch v = \<lparr>p_id = None, p_title = None, p_description = None, p_instructor = None,
     p_students = None, p_categories = Some v, p_visits = None, p_price = None, p_duration = None\<rparr>"

text \<open>
  The invariant of the data model: in every course of the catalog a user id occurs at
  most once among the students. \<open>partial_students_unique\<close> says the same of the
  students an argument of \<^verbatim>\<open>createCourse\<close> or \<^verbatim>\<open>editCourse\<close> brings along.
\<close>

definition students_unique :: "course \<Rightarrow> bool" where
  "students_unique c = (case students c of None \<Rightarrow> True | Some xs \<Rightarrow> distinct (map fst xs))"

definition partial_students_unique :: "partial \<Rightarrow> bool" where
  "partial_students_unique p = (case p_students p of None \<Rightarrow> True | Some xs \<Rightarrow> distinct (map fst xs))"

definition catalog_ok :: "repo \<Rightarrow> bool" where
  "catalog_ok s = list_all students_unique (courseList s)"

text \<open>The operations of the local-storage module that change the catalog, as data.\<close>

datatype operation =
    OpCreate "partial option"
  | OpEdit int partial
  | OpEnroll prim int string
  | OpVisit int
  | OpDelete int
  | OpCourseDeletion int

fun perform :: "operation \<Rightarrow> repo \<Rightarrow> repo" where
  "perform (OpCreate arg) s = snd (createCourse arg s)"
| "perform (OpEdit i data) s = snd (editCourse i data s)"
| "perform (OpEnroll userId courseId now) s = snd (enrollUser userId courseId now s)"
| "perform (OpVisit courseId) s = snd (incrementVisits courseId s)"
| "perform (OpDelete i) s = snd (deleteCourse i s)"
| "perform (OpCourseDeletion courseId) s = snd (courseDeletion courseId s)"

text \<open>The students an operation takes from its caller have no repeated user id.\<close>

fun supplied_students_unique :: "operation \<Rightarrow> bool" where
  "supplied_students_unique (OpCreate arg) =
     (case arg of None \<Rightarrow> True | Some p \<Rightarrow> partial_students_unique p)"
| "supplied_students_unique (OpEdit i data) = partial_students_unique data"
| "supplied_students_unique (OpEnroll userId courseId now) = True"
| "supplied_students_unique (OpVisit courseId) = True"
| "supplied_students_unique (OpDelete i) = True"
| "supplied_students_unique (OpCourseDeletion courseId) = True"

text \<open>The argument \<^verbatim>\<open>{ title: 'A', students: [[1, 'd1'], [1, 'd2']] }\<close>.\<close>

definition twice_enrolled :: partial where
  "twice_enrolled = (titled ''A'')\<lparr>p_students := Some [(JNum 1, ''d1''), (JNum 1, ''d2'')]\<rparr>"

text \<open>Reading decimal digits back, to show that the decimal form determines the number.\<close>

definition digit_val :: "char \<Rightarrow> nat" where
  "digit_val c = of_char c - 48"

definition number_of :: "string \<Rightarrow> nat" where
  "number_of cs = foldl (\<lambda>a c. 10 * a + digit_val c) 0 cs"

text \<open>
  The seeded page after \<^verbatim>\<open>enrollUser(5, 1)\<close>, and after \<^verbatim>\<open>enrollUser("5", 1)\<close> on
  top of that.
\<close>

definition once_enrolled :: repo where
  "once_enrolled = snd (enrollUser (JNum 5) 1 ''t1'' seeded_repo)"

definition both_enrolled :: repo where
  "both_enrolled = snd (enrollUser (JStr ''5'') 1 ''t2'' once_enrolled)"

text \<open>
  What the cascade leaves of a user and which \<^verbatim>\<open>updateUser\<close> calls it makes, in the
  words of the specification: every user with role student loses the references to
  the course, every other user stays as it is.
\<close>

definition without_course :: "int \<Rightarrow> user \<Rightarrow> user" where
  "without_course courseId u =
     (if role u = ''student''
      then u\<lparr>enrolledCourses :=
               filter (\<lambda>e. String e \<noteq> String (JNum courseId)) (enrolledCourses u)\<rparr>
      else u)"

definition update_calls :: "int \<Rightarrow> user list \<Rightarrow> call list" where
  "update_calls courseId us =
     map (\<lambda>(r, u). UpdateUser r
            (filter (\<lambda>e. String e \<noteq> String (JNum courseId)) (enrolledCourses u)))
       (filter (\<lambda>(r, u). role u = ''student'') (enumerate 0 us))"

text \<open>
  The seeded page with a student enrolled in courses 1 (once as a number, once as a
  string) and 2, an administrator, and two progress records.
\<close>

definition campus :: repo where
  "campus = seeded_repo
     \<lparr>users := [\<lparr>role = ''student'', enrolledCourses = [JNum 1, JStr ''1'', JNum 2]\<rparr>,
                \<lparr>role = ''admin'', enrolledCourses = [JNum 1]\<rparr>],
      progress := [\<lparr>pr_user = JNum 7, pr_course = 1\<rparr>, \<lparr>pr_user = JNum 7, pr_course = 2\<rparr>]\<rparr>"

text \<open>
  The catalog the remote-backed \<^verbatim>\<open>createCourse\<close> works on: an empty catalog is first
  replaced by what the backend returns, if it returns something.
\<close>

definition after_load :: "course list response \<Rightarrow> course list \<Rightarrow> course list" where
  "after_load fetched cl =
     (if cl = [] then (case fetched of HttpOk d \<Rightarrow> d | HttpError \<Rightarrow> cl | NetworkError \<Rightarrow> cl) else cl)"

text \<open>An answer to the load request after which an empty catalog is still empty.\<close>

definition empty_answer :: "course list response \<Rightarrow> bool" where
  "empty_answer r = (case r of HttpOk d \<Rightarrow> d = [] | HttpError \<Rightarrow> True | NetworkError \<Rightarrow> True)"

text \<open>
  A run of \<^verbatim>\<open>listCourses()\<close> calls of the remote-backed module; each call comes with
  the answer the backend would give to a load request at that moment.
\<close>

fun listCourses_run :: "course list response list \<Rightarrow> repo \<Rightarrow> course list list \<times> repo" where
  "listCourses_run [] s = ([], s)"
| "listCourses_run (r # rs) s =
     (let (cl, s1) = listCourses_remote r s; (cls, s2) = listCourses_run rs s1 in (cl # cls, s2))"

text \<open>
  A run of \<^verbatim>\<open>createCourse\<close> calls of the remote-backed module whose writes the backend
  accepts; each call comes with the answer the backend would give to a load request.
  \<open>first_load\<close> is the catalog after the load the first call may trigger.
\<close>

fun createCourses_remote ::
    "(partial \<times> course list response) list \<Rightarrow> repo \<Rightarrow> course option list \<times> repo" where
  "createCourses_remote [] s = ([], s)"
| "createCourses_remote ((p, fetched) # ps) s =
     (let (r, s1) = createCourse_remote (Some p) fetched (HttpOk ()) s;
          (rs, s2) = createCourses_remote ps s1
      in (r # rs, s2))"

definition first_load :: "(partial \<times> course list response) list \<Rightarrow> course list \<Rightarrow> course list" where
  "first_load ps cl = (case ps of [] \<Rightarrow> cl | (p, fetched) # rest \<Rightarrow> after_load fetched cl)"

text \<open>
  The counts of the specification, read off the stored course itself: the number of
  entries of its student list and its visit counter, both 0 when the property is
  missing.
\<close>

abbreviation enrolled :: "course \<Rightarrow> nat" where
  "enrolled c \<equiv> (case students c of None \<Rightarrow> 0 | Some xs \<Rightarrow> length xs)"

abbreviation visited :: "course \<Rightarrow> int" where
  "visited c \<equiv> (case visits c of None \<Rightarrow> 0 | Some v \<Rightarrow> v)"

text \<open>
  Example courses: \<open>plain_course i us v\<close> has id \<open>i\<close>, the students \<open>us\<close> and \<open>v\<close>
  visits. \<open>course_A\<close> (3 students, 5 visits) and \<open>course_B\<close> (1 student, 9 visits)
  are the two courses of the specification's example; \<open>four_courses\<close> has ties in
  both counts.
\<close>

definition plain_course :: "int \<Rightarrow> prim list \<Rightarrow> int \<Rightarrow> course" where
  "plain_course i us v =
     \<lparr>cid = i, title = Some ''T'', description = None, instructor = None,
      students = Some (map (\<lambda>u. (u, ''d'')) us), categories = CArr [], visits = Some v,
      price = Some 0, duration = Some ''N/A''\<rparr>"

definition course_A :: course where
  "course_A = plain_course 1 [JNum 1, JNum 2, JNum 3] 5"

definition course_B :: course where
  "course_B = plain_course 2 [JNum 1] 9"

definition four_courses :: "course list" where
  "four_courses =
     [plain_course 1 [JNum 1] 7, plain_course 2 [JNum 1, JNum 2] 0,
      plain_course 3 [JNum 2] 7, plain_course 4 [JNum 3, JNum 4] 7]"

text \<open>
  What \<^verbatim>\<open>editCourse\<close> can read as the categories a course already has, by the kind
  of value that is stored: the elements of an array; nothing for a falsy value (a
  missing property, \<^verbatim>\<open>null\<close>, \<^verbatim>\<open>false\<close>, 0, the empty string); the single characters
  of a string; and no reading at all for \<^verbatim>\<open>true\<close> or a number other than 0, which
  cannot be spread.
\<close>

fun old_labels :: "catfield \<Rightarrow> string list option" where
  "old_labels (CArr xs) = Some xs"
| "old_labels (CPrim (JStr str)) = Some (map (\<lambda>c. [c]) str)"
| "old_labels (CPrim JUndefined) = Some []"
| "old_labels (CPrim JNull) = Some []"
| "old_labels (CPrim (JBool b)) = (if b then None else Some [])"
| "old_labels (CPrim (JNum n)) = (if n = 0 then Some [] else None)"

text \<open>
  The argument \<^verbatim>\<open>{ title: 'N', categories: 5 }\<close> and the seeded page after
  \<^verbatim>\<open>createCourse\<close> with it: course 3, whose stored categories are the number 5.
\<close>

definition numbered :: partial where
  "numbered = (titled ''N'')\<lparr>p_categories := Some (CPrim (JNum 5))\<rparr>"

definition with_number :: repo where
  "with_number = snd (createCourse (Some numbered) seeded_repo)"

text \<open>
  The patch \<^verbatim>\<open>{ id: i }\<close>, and the seeded page after \<^verbatim>\<open>editCourse(2, { id: 1 })\<close>, on
  which both courses have the id 1.
\<close>

definition id_patch :: "int \<Rightarrow> partial" where
  "id_patch i = \<lparr>p_id = Some i, p_title = None, p_description = None, p_instructor = None,
     p_students = None, p_categories = None, p_visits = None, p_price = None, p_duration = None\<rparr>"

definition twin_ids :: repo where
  "twin_ids = snd (editCourse 2 (id_patch 1) seeded_repo)"

text \<open>What a load request brings: the catalog of the backend, or nothing when it fails.\<close>

definition reloaded :: "course list response \<Rightarrow> course list" where
  "reloaded fetched = (case fetched of HttpOk d \<Rightarrow> d | HttpError \<Rightarrow> [] | NetworkError \<Rightarrow> [])"

text \<open>
  A page whose first course has the id 5, with a student whose enrolled courses refer
  to course 5 as the string \<^verbatim>\<open>"5"\<close> and as the number, and to other courses as 2,
  \<^verbatim>\<open>"15"\<close> and \<^verbatim>\<open>"05"\<close>, and with a teacher.
\<close>

definition campus5 :: repo where
  "campus5 = empty_repo
     \<lparr>courseList := [(seed ! 0)\<lparr>cid := 5\<rparr>, seed ! 1],
      users := [\<lparr>role = ''student'',
                 enrolledCourses = [JStr ''5'', JNum 5, JNum 2, JStr ''15'', JStr ''05'']\<rparr>,
                \<lparr>role = ''teacher'', enrolledCourses = [JNum 5]\<rparr>]\<rparr>"

text \<open>
  The operations that create or delete a course; a creation counts when its argument
  has a title.
\<close>

fun create_or_delete :: "operation \<Rightarrow> bool" where
  "create_or_delete (OpCreate arg) = (case arg of None \<Rightarrow> False | Some p \<Rightarrow> has_title p)"
| "create_or_delete (OpEdit i data) = False"
| "create_or_delete (OpEnroll userId courseId now) = False"
| "create_or_delete (OpVisit courseId) = False"
| "create_or_delete (OpDelete i) = True"
| "create_or_delete (OpCourseDeletion courseId) = True"

text \<open>
  A page whose courses have the ids 1 and 5, and the seeded page after one course has
  been created, with the ids 1, 2 and 3.
\<close>

definition gapped :: repo where
  "gapped = empty_repo\<lparr>courseList := [seed ! 0, (seed ! 1)\<lparr>cid := 5\<rparr>]\<rparr>"

definition three_courses :: repo where
  "three_courses = snd (createCourse (Some (titled ''A'')) seeded_repo)"

section \<open>Facts about the array helpers\<close>

lemma mset_sort_insert: "mset (sort_insert cmp x ys) = add_mset x (mset ys)"
  by (induction ys) auto

lemma mset_array_sort: "mset (array_sort cmp xs) = mset xs"
  unfolding array_sort_def by (induction xs) (auto simp: mset_sort_insert)

lemma set_sort_insert: "set (sort_insert cmp x ys) = insert x (set ys)"
  by (induction ys) auto

lemma array_sort_Cons: "array_sort cmp (x # xs) = sort_insert cmp x (array_sort cmp xs)"
  by (simp add: array_sort_def)

text \<open>
  For a comparator of the shape \<open>k b - k a\<close> the result is ordered by \<open>k\<close>, largest
  first, and elements of equal \<open>k\<close> keep the order they had.
\<close>

lemma sorted_sort_insert:
  assumes "sorted_wrt (\<lambda>a b. k b \<le> k a) ys" and "\<And>a b. cmp a b = k b - k a"
  shows "sorted_wrt (\<lambda>a b. (k b :: int) \<le> k a) (sort_insert cmp x ys)"
  using assms(1) by (induction ys) (auto simp: assms(2) set_sort_insert)

lemma sorted_array_sort:
  assumes "\<And>a b. cmp a b = k b - k a"
  shows "sorted_wrt (\<lambda>a b. (k b :: int) \<le> k a) (array_sort cmp xs)"
  unfolding array_sort_def by (induction xs) (auto intro: sorted_sort_insert assms)

lemma filter_sort_insert_neg:
  "\<not> P x \<Longrightarrow> filter P (sort_insert cmp x ys) = filter P ys"
  by (induction ys) auto

lemma filter_sort_insert_eq:
  assumes "sorted_wrt (\<lambda>a b. k b \<le> k a) ys" and "\<And>a b. cmp a b = k b - k a"
  shows "filter (\<lambda>y. k y = (k x :: int)) (sort_insert cmp x ys)
           = x # filter (\<lambda>y. k y = k x) ys"
  using assms(1) by (induction ys) (auto simp: assms(2))

lemma stable_array_sort:
  assumes "\<And>a b. cmp a b = k b - k a"
  shows "filter (\<lambda>y. k y = (v :: int)) (array_sort cmp xs) = filter (\<lambda>y. k y = v) xs"
proof (induction xs)
  case Nil
  show ?case by (simp add: array_sort_def)
next
  case (Cons x xs)
  have s: "sorted_wrt (\<lambda>a b. k b \<le> k a) (array_sort cmp xs)"
    by (rule sorted_array_sort [OF assms])
  show ?case
  proof (cases "k x = v")
    case True
    with filter_sort_insert_eq [OF s assms, of x] Cons.IH show ?thesis
      by (simp add: array_sort_Cons)
  next
    case False
    then show ?thesis
      by (simp add: array_sort_Cons filter_sort_insert_neg Cons.IH)
  qed
qed

lemma foldl_add_sum: "foldl (\<lambda>acc c. acc + f c) a xs = (a::nat) + sum_list (map f xs)"
  by (induction xs arbitrary: a) auto

section \<open>Analytics: the fields of the answer\<close>

lemma getAnalytics_fields:
  "totalCourses (fst (getAnalytics s)) = length (courseList s)"
  "totalEnrollments (fst (getAnalytics s)) = sum_list (map students_length (courseList s))"
  "topCourses (fst (getAnalytics s)) = take 3 (array_sort by_enrollment (courseList s))"
  "topVisited (fst (getAnalytics s)) = take 3 (array_sort by_visits (courseList s))"
  "snd (getAnalytics s) = s"
  by (simp_all add: getAnalytics_def Let_def slice0_def foldl_add_sum)

section \<open>Initial catalog of the local-storage module\<close>

lemma initial_courseList_eq: "initial_courseList st = loadCourses st"
  by (simp add: initial_courseList_def array_truthy_def)

text \<open>
  C7. With no persisted item the specification expects the catalog to start as the two
  seed courses. \<^verbatim>\<open>loadCourses\<close> answers the empty array in that case, the empty array
  is truthy, and so the catalog starts empty: the seed is never used.
\<close>

theorem initial_courseList_absent:
  "initial_courseList Absent = [] \<and> initial_courseList Absent \<noteq> seed
   \<and> initial_courseList Corrupt = [] \<and> initial_courseList Falsy = []
   \<and> initial_courseList (Catalog cl) = cl"
  by (simp add: initial_courseList_eq loadCourses_def seed_def)

section \<open>Identifiers of created courses\<close>

lemma generateUniqueCourseId_eq: "generateUniqueCourseId s = next_id (courseList s)"
proof (cases "courseList s")
  case Nil
  then show ?thesis by (simp add: generateUniqueCourseId_def next_id_def)
next
  case (Cons c cs)
  have "fold max (map cid cs) (cid c) = Max (set (cid c # map cid cs))"
    by (simp only: Max.set_eq_fold)
  then show ?thesis using Cons
    by (simp add: generateUniqueCourseId_def next_id_def)
qed

lemma next_id_greater: "c \<in> set cl \<Longrightarrow> cid c < next_id cl"
proof -
  assume a: "c \<in> set cl"
  then have "cid c \<le> Max (cid ` set cl)" by simp
  with a show ?thesis by (auto simp: next_id_def)
qed

lemma courseList_saveCourses [simp]: "courseList (saveCourses s) = courseList s"
  by (simp add: saveCourses_def)

lemma cid_newCourse [simp]: "cid (newCourse p i) = i"
  by (simp add: newCourse_def)

lemma createCourse_titled:
  "has_title p \<Longrightarrow> createCourse (Some p) s =
     (Some (newCourse p (next_id (courseList s))),
      saveCourses (s\<lparr>courseList := courseList s @ [newCourse p (next_id (courseList s))]\<rparr>))"
  by (simp add: createCourse_def Let_def generateUniqueCourseId_eq)

lemma createCourses_run:
  assumes "\<forall>p\<in>set ps. has_title p" and "createCourses ps s = (rs, s')"
  shows "\<exists>cs. rs = map Some cs \<and> length cs = length ps \<and> courseList s' = courseList s @ cs
            \<and> (\<forall>k < length cs. cid (cs ! k) = next_id (courseList s @ take k cs))"
  using assms
proof (induction ps arbitrary: s rs s')
  case Nil
  then show ?case by simp
next
  case (Cons p ps)
  let ?c = "newCourse p (next_id (courseList s))"
  let ?s1 = "saveCourses (s\<lparr>courseList := courseList s @ [?c]\<rparr>)"
  from Cons.prems have t: "has_title p" and ts: "\<forall>p\<in>set ps. has_title p" by simp_all
  obtain rs2 s2 where run: "createCourses ps ?s1 = (rs2, s2)" by (cases "createCourses ps ?s1")
  from Cons.prems(2) t run have rs: "rs = Some ?c # rs2" and s': "s' = s2"
    by (simp_all add: createCourse_titled)
  from Cons.IH [OF ts run] obtain cs where
    cs: "rs2 = map Some cs" "length cs = length ps" "courseList s2 = courseList ?s1 @ cs"
        "\<forall>k < length cs. cid (cs ! k) = next_id (courseList ?s1 @ take k cs)"
    by blast
  have "\<forall>k < length (?c # cs). cid ((?c # cs) ! k) = next_id (courseList s @ take k (?c # cs))"
  proof (intro allI impI)
    fix k assume "k < length (?c # cs)"
    then show "cid ((?c # cs) ! k) = next_id (courseList s @ take k (?c # cs))"
      using cs(4) by (cases k) auto
  qed
  with rs s' cs show ?case
    by (intro exI [of _ "?c # cs"]) simp
qed

lemma ids_increasing:
  assumes "\<forall>k < length cs. cid (cs ! k) = next_id (cl @ take k cs)"
  shows "sorted_wrt (<) (map cid cs) \<and> (\<forall>c\<in>set cs. \<forall>c0\<in>set cl. cid c0 < cid c)"
  using assms
proof (induction cs rule: rev_induct)
  case Nil
  then show ?case by simp
next
  case (snoc c cs)
  have prev: "\<forall>k < length cs. cid (cs ! k) = next_id (cl @ take k cs)"
  proof (intro allI impI)
    fix k assume k: "k < length cs"
    with snoc.prems have "cid ((cs @ [c]) ! k) = next_id (cl @ take k (cs @ [c]))" by simp
    with k show "cid (cs ! k) = next_id (cl @ take k cs)" by (simp add: nth_append)
  qed
  from snoc.prems [rule_format, of "length cs"]
  have c: "cid c = next_id (cl @ cs)" by simp
  have gt: "\<forall>c0\<in>set (cl @ cs). cid c0 < cid c"
    using next_id_greater [of _ "cl @ cs"] c by simp
  from snoc.IH [OF prev] gt show ?case
    by (auto simp: sorted_wrt_append)
qed

section \<open>Finding a course\<close>

lemma findIndex_lower: "- 1 \<le> findIndex p xs"
  by (induction xs) (auto simp: Let_def)

lemma findIndex_ge: "findIndex p xs \<noteq> - 1 \<Longrightarrow> 0 \<le> findIndex p xs"
  using findIndex_lower [of p xs] by simp

lemma findIndex_none: "findIndex p xs = - 1 \<longleftrightarrow> (\<forall>x\<in>set xs. \<not> p x)"
proof (induction xs)
  case Nil
  show ?case by simp
next
  case (Cons x xs)
  from findIndex_lower [of p xs] have "findIndex p xs + 1 \<noteq> - 1" by simp
  with Cons show ?case
    by (simp add: Let_def)
qed

lemma findIndex_found:
  "findIndex p xs \<noteq> - 1 \<Longrightarrow>
     nat (findIndex p xs) < length xs \<and> p (xs ! nat (findIndex p xs))
     \<and> find p xs = Some (xs ! nat (findIndex p xs))
     \<and> (\<forall>j < nat (findIndex p xs). \<not> p (xs ! j))"
proof (induction xs)
  case Nil
  then show ?case by simp
next
  case (Cons x xs)
  show ?case
  proof (cases "p x")
    case True
    then show ?thesis by simp
  next
    case False
    with Cons.prems have ne: "findIndex p xs \<noteq> - 1" by (auto simp: Let_def split: if_splits)
    from findIndex_ge [OF ne] have n: "nat (findIndex p xs + 1) = Suc (nat (findIndex p xs))"
      by simp
    from Cons.IH [OF ne] False ne n show ?thesis
      by (auto simp: Let_def less_Suc_eq_0_disj)
  qed
qed

lemma find_findIndex: "find p xs = None \<longleftrightarrow> findIndex p xs = - 1"
  by (auto simp: findIndex_none find_None_iff)

section \<open>Distinct elements in order of first occurrence\<close>

lemma set_set_spread [simp]: "set (set_spread xs) = set xs"
  by (induction xs rule: set_spread.induct) auto

lemma distinct_set_spread [simp]: "distinct (set_spread xs)"
  by (induction xs rule: set_spread.induct) auto

lemma set_spread_filter: "set_spread (filter P xs) = filter P (set_spread xs)"
proof (induction xs rule: set_spread.induct)
  case 1
  show ?case by simp
next
  case (2 x xs)
  have c: "filter (\<lambda>y. y \<noteq> x) (filter P xs) = filter P (filter (\<lambda>y. y \<noteq> x) xs)"
    by (simp add: conj_commute)
  show ?case
  proof (cases "P x")
    case True
    with 2 c show ?thesis by simp
  next
    case False
    then have "filter P (filter (\<lambda>y. y \<noteq> x) xs) = filter P xs"
      by (auto intro: filter_cong)
    with 2 False show ?thesis by simp
  qed
qed

lemma filter_neq_absent: "a \<notin> set xs \<Longrightarrow> filter (\<lambda>y. y \<noteq> a) xs = xs"
  by (induction xs) auto

lemma set_spread_distinct: "distinct xs \<Longrightarrow> set_spread xs = xs"
  by (induction xs) (auto simp: filter_neq_absent)

lemma set_spread_append:
  "set_spread (xs @ ys) = set_spread xs @ filter (\<lambda>y. y \<notin> set xs) (set_spread ys)"
proof (induction xs arbitrary: ys rule: set_spread.induct)
  case 1
  show ?case by simp
next
  case (2 x xs)
  have "set_spread (filter (\<lambda>y. y \<noteq> x) xs @ filter (\<lambda>y. y \<noteq> x) ys)
          = set_spread (filter (\<lambda>y. y \<noteq> x) xs)
            @ filter (\<lambda>y. y \<notin> set (filter (\<lambda>y. y \<noteq> x) xs)) (set_spread (filter (\<lambda>y. y \<noteq> x) ys))"
    by (rule 2)
  also have "filter (\<lambda>y. y \<notin> set (filter (\<lambda>y. y \<noteq> x) xs)) (set_spread (filter (\<lambda>y. y \<noteq> x) ys))
          = filter (\<lambda>y. y \<notin> set (x # xs)) (set_spread ys)"
    by (auto simp: set_spread_filter intro: filter_cong)
  finally show ?case by simp
qed

section \<open>editCourse and the categories\<close>

lemma getCourse_index:
  assumes "getCourse i s = Some c0"
  shows "findCourseIndex i s \<noteq> - 1" and "courseList s ! nat (findCourseIndex i s) = c0"
    and "nat (findCourseIndex i s) < length (courseList s)" and "cid c0 = i"
proof -
  from assms have "find (\<lambda>c. cid c = i) (courseList s) \<noteq> None"
    by (simp add: getCourse_def)
  then show ne: "findCourseIndex i s \<noteq> - 1"
    by (simp add: find_findIndex findCourseIndex_def)
  from findIndex_found [OF ne [unfolded findCourseIndex_def]] assms
  show "courseList s ! nat (findCourseIndex i s) = c0"
    and "nat (findCourseIndex i s) < length (courseList s)" and "cid c0 = i"
    by (auto simp: getCourse_def findCourseIndex_def)
qed

lemma edit_categories_truthy:
  assumes "p_categories data = Some v" and "cat_truthy v" and "spread (oldCategories c0) = Inr os"
  shows "edit_categories c0 data
           = Inr (data\<lparr>p_categories := Some (CArr (set_spread (os @ patch_list v)))\<rparr>)"
  using assms by (cases v) (simp_all add: edit_categories_def patch_list_def)

lemma editCourse_found:
  assumes "getCourse i s = Some c0" and "edit_categories c0 data = Inr data'"
  shows "editCourse i data s =
           (Inr (Some (merge c0 data')),
            saveCourses (s\<lparr>courseList := (courseList s)[nat (findCourseIndex i s) := merge c0 data']\<rparr>))"
    and "editCourse_remote i data s =
           (Inr (Some (merge c0 data')),
            s\<lparr>courseList := (courseList s)[nat (findCourseIndex i s) := merge c0 data']\<rparr>)"
  using getCourse_index [OF assms(1)] assms(2)
  by (simp_all add: editCourse_def editCourse_remote_def Let_def)

section \<open>Effects of the operations on the catalog\<close>

lemma list_all_update_first:
  "list_all P xs \<Longrightarrow> (\<And>x. x \<in> set xs \<Longrightarrow> q x \<Longrightarrow> P (f x)) \<Longrightarrow> list_all P (update_first q f xs)"
  by (induction xs) auto

lemma list_all_splice1: "list_all P xs \<Longrightarrow> list_all P (splice1 n xs)"
  by (auto simp: splice1_def list_all_iff dest: in_set_takeD in_set_dropD)

lemma list_all_list_update: "list_all P xs \<Longrightarrow> P x \<Longrightarrow> list_all P (xs[n := x])"
  by (auto simp: list_all_iff dest: set_update_subset_insert [THEN subsetD])

lemma courseList_mutate_course [simp]:
  "courseList (mutate_course i f s) = update_first (\<lambda>c. cid c = i) f (courseList s)"
  by (simp add: mutate_course_def)

lemma getCourse_mem: "getCourse i s = Some c \<Longrightarrow> c \<in> set (courseList s)"
  by (auto simp: getCourse_def find_Some_iff)

lemma courseList_createCourse:
  "courseList (snd (createCourse arg s)) =
     (case arg of None \<Rightarrow> courseList s
      | Some p \<Rightarrow> if has_title p then courseList s @ [newCourse p (next_id (courseList s))]
                  else courseList s)"
  by (cases arg) (simp_all add: createCourse_def Let_def generateUniqueCourseId_eq)

lemma students_unique_newCourse:
  "partial_students_unique p \<Longrightarrow> students_unique (newCourse p i)"
  by (simp add: partial_students_unique_def students_unique_def newCourse_def split: option.splits)

lemma catalog_ok_createCourse:
  assumes "catalog_ok s" and "case arg of None \<Rightarrow> True | Some p \<Rightarrow> partial_students_unique p"
  shows "catalog_ok (snd (createCourse arg s))"
  using assms
  by (cases arg) (simp_all add: catalog_ok_def courseList_createCourse students_unique_newCourse)

lemma students_edit_categories:
  "edit_categories c0 data = Inr data' \<Longrightarrow> p_students data' = p_students data"
  by (auto simp: edit_categories_def Let_def split: option.splits if_splits sum.splits)

lemma students_unique_merge:
  "students_unique c \<Longrightarrow> partial_students_unique p \<Longrightarrow> students_unique (merge c p)"
  by (auto simp: students_unique_def partial_students_unique_def merge_def split: option.splits)

lemma courseList_editCourse:
  "courseList (snd (editCourse i data s)) = courseList s
   \<or> (\<exists>data'. edit_categories (courseList s ! nat (findCourseIndex i s)) data = Inr data'
         \<and> findCourseIndex i s \<noteq> - 1
         \<and> courseList (snd (editCourse i data s))
             = (courseList s)[nat (findCourseIndex i s) := merge (courseList s ! nat (findCourseIndex i s)) data'])"
  by (simp add: editCourse_def Let_def split: sum.splits)

lemma catalog_ok_editCourse:
  assumes "catalog_ok s" and "partial_students_unique data"
  shows "catalog_ok (snd (editCourse i data s))"
proof -
  let ?idx = "nat (findCourseIndex i s)"
  from courseList_editCourse [of i data s] show ?thesis
  proof
    assume "courseList (snd (editCourse i data s)) = courseList s"
    with assms(1) show ?thesis by (simp add: catalog_ok_def)
  next
    assume "\<exists>data'. edit_categories (courseList s ! ?idx) data = Inr data'
         \<and> findCourseIndex i s \<noteq> - 1
         \<and> courseList (snd (editCourse i data s))
             = (courseList s)[?idx := merge (courseList s ! ?idx) data']"
    then obtain data' where e: "edit_categories (courseList s ! ?idx) data = Inr data'"
      and ne: "findCourseIndex i s \<noteq> - 1"
      and cl: "courseList (snd (editCourse i data s))
             = (courseList s)[?idx := merge (courseList s ! ?idx) data']"
      by blast
    from findIndex_found [OF ne [unfolded findCourseIndex_def]]
    have "?idx < length (courseList s)" by (simp add: findCourseIndex_def)
    with assms(1) have u: "students_unique (courseList s ! ?idx)"
      by (simp add: catalog_ok_def list_all_length)
    from students_edit_categories [OF e] assms(2) have "partial_students_unique data'"
      by (simp add: partial_students_unique_def)
    from students_unique_merge [OF u this] assms(1) cl show ?thesis
      by (simp add: catalog_ok_def list_all_list_update)
  qed
qed

lemma courseList_deleteCourse:
  "courseList (snd (deleteCourse i s)) =
     (if findCourseIndex i s = - 1 then courseList s
      else splice1 (nat (findCourseIndex i s)) (courseList s))"
  by (simp add: deleteCourse_def Let_def)

lemma catalog_ok_deleteCourse: "catalog_ok s \<Longrightarrow> catalog_ok (snd (deleteCourse i s))"
  by (simp add: catalog_ok_def courseList_deleteCourse list_all_splice1)

lemma courseList_updateUser [simp]: "courseList (updateUser r ec s) = courseList s"
  by (simp add: updateUser_def)

lemma courseList_foldl_updateUser:
  "courseList (foldl (\<lambda>st (r, student). updateUser r (g student) st) s xs) = courseList s"
  by (induction xs arbitrary: s) (auto simp: split_def)

lemma courseList_cascade [simp]: "courseList (cascade courseId s) = courseList s"
  by (simp add: cascade_def listUsers_def cleanupCourseData_def Let_def courseList_foldl_updateUser)

lemma courseList_courseDeletion:
  "courseList (snd (courseDeletion i s)) = courseList (snd (deleteCourse i s))"
  by (simp add: courseDeletion_def split_def Let_def)

lemma catalog_ok_courseDeletion: "catalog_ok s \<Longrightarrow> catalog_ok (snd (courseDeletion i s))"
  using catalog_ok_deleteCourse [of s i] by (simp add: catalog_ok_def courseList_courseDeletion)

lemma courseList_incrementVisits:
  "courseList (snd (incrementVisits i s)) =
     (case getCourse i s of None \<Rightarrow> courseList s
      | Some c \<Rightarrow> update_first (\<lambda>c. cid c = i) (\<lambda>c'. c'\<lparr>visits := Some (visits_or0 c + 1)\<rparr>) (courseList s))"
  by (simp add: incrementVisits_def Let_def split: option.splits)

lemma catalog_ok_incrementVisits:
  assumes "catalog_ok s"
  shows "catalog_ok (snd (incrementVisits i s))"
proof (cases "getCourse i s")
  case None
  with assms show ?thesis by (simp add: catalog_ok_def courseList_incrementVisits)
next
  case (Some c)
  have "list_all students_unique
          (update_first (\<lambda>c. cid c = i) (\<lambda>c'. c'\<lparr>visits := Some (visits_or0 c + 1)\<rparr>) (courseList s))"
  proof (rule list_all_update_first)
    from assms show "list_all students_unique (courseList s)" by (simp add: catalog_ok_def)
  next
    fix x assume "x \<in> set (courseList s)"
    with assms have "students_unique x" by (simp add: catalog_ok_def list_all_iff)
    then show "students_unique (x\<lparr>visits := Some (visits_or0 c + 1)\<rparr>)"
      by (simp add: students_unique_def)
  qed
  with Some show ?thesis by (simp add: catalog_ok_def courseList_incrementVisits)
qed

lemma update_first_twice:
  "(\<And>x. q x \<Longrightarrow> q (g x)) \<Longrightarrow>
     update_first q f (update_first q g xs) = update_first q (\<lambda>x. f (g x)) xs"
  by (induction xs) auto

lemma find_update_first:
  "(\<And>x. q x \<Longrightarrow> q (f x)) \<Longrightarrow> find q (update_first q f xs) = map_option f (find q xs)"
  by (induction xs) auto

lemma getCourse_mutate_course:
  "(\<And>x. cid (f x) = cid x) \<Longrightarrow> getCourse i (mutate_course i f s) = map_option f (getCourse i s)"
  by (simp add: getCourse_def find_update_first)

lemma getCourse_saveCourses [simp]: "getCourse i (saveCourses s) = getCourse i s"
  by (simp add: getCourse_def)

lemma mutate_course_twice:
  "(\<And>x. cid (g x) = cid x) \<Longrightarrow>
     mutate_course i f (mutate_course i g s) = mutate_course i (\<lambda>x. f (g x)) s"
  by (simp add: mutate_course_def update_first_twice)

lemma enrollUser_cases:
  assumes "getCourse courseId s = Some c"
  shows "userId \<in> fst ` set (students_or_empty c) \<Longrightarrow>
           enrollUser userId courseId now s
             = (False, mutate_course courseId (\<lambda>x. x\<lparr>students := Some (students_or_empty c)\<rparr>) s)"
    and "userId \<notin> fst ` set (students_or_empty c) \<Longrightarrow>
           enrollUser userId courseId now s
             = (True, saveCourses (mutate_course courseId
                  (\<lambda>x. x\<lparr>students := Some (students_or_empty c @ [(userId, now)])\<rparr>) s))"
    and "userId \<in> fst ` set (students_or_empty c) \<Longrightarrow>
           enrollUser_remote userId courseId now s
             = (False, mutate_course courseId (\<lambda>x. x\<lparr>students := Some (students_or_empty c)\<rparr>) s)"
    and "userId \<notin> fst ` set (students_or_empty c) \<Longrightarrow>
           enrollUser_remote userId courseId now s
             = (True, mutate_course courseId
                  (\<lambda>x. x\<lparr>students := Some (students_or_empty c @ [(userId, now)])\<rparr>) s)"
proof -
  have ex: "list_ex (\<lambda>st. fst st = userId) xs \<longleftrightarrow> userId \<in> fst ` set xs" for xs :: "(prim \<times> string) list"
    by (auto simp: list_ex_iff)
  have tw: "mutate_course courseId (\<lambda>x. x\<lparr>students := Some ys\<rparr>)
              (mutate_course courseId (\<lambda>x. x\<lparr>students := Some zs\<rparr>) s)
            = mutate_course courseId (\<lambda>x. x\<lparr>students := Some ys\<rparr>) s" for ys zs
    by (simp add: mutate_course_twice)
  show "userId \<in> fst ` set (students_or_empty c) \<Longrightarrow>
           enrollUser userId courseId now s
             = (False, mutate_course courseId (\<lambda>x. x\<lparr>students := Some (students_or_empty c)\<rparr>) s)"
    using assms by (simp add: enrollUser_def Let_def ex)
  show "userId \<notin> fst ` set (students_or_empty c) \<Longrightarrow>
           enrollUser userId courseId now s
             = (True, saveCourses (mutate_course courseId
                  (\<lambda>x. x\<lparr>students := Some (students_or_empty c @ [(userId, now)])\<rparr>) s))"
    using assms by (simp add: enrollUser_def Let_def ex tw)
  show "userId \<in> fst ` set (students_or_empty c) \<Longrightarrow>
           enrollUser_remote userId courseId now s
             = (False, mutate_course courseId (\<lambda>x. x\<lparr>students := Some (students_or_empty c)\<rparr>) s)"
    using assms by (simp add: enrollUser_remote_def Let_def ex)
  show "userId \<notin> fst ` set (students_or_empty c) \<Longrightarrow>
           enrollUser_remote userId courseId now s
             = (True, mutate_course courseId
                  (\<lambda>x. x\<lparr>students := Some (students_or_empty c @ [(userId, now)])\<rparr>) s)"
    using assms by (simp add: enrollUser_remote_def Let_def ex tw)
qed

lemma catalog_ok_mutate_students:
  assumes "catalog_ok s" and "distinct (map fst xs)"
  shows "catalog_ok (mutate_course i (\<lambda>x. x\<lparr>students := Some xs\<rparr>) s)"
  unfolding catalog_ok_def courseList_mutate_course
proof (rule list_all_update_first)
  from assms(1) show "list_all students_unique (courseList s)" by (simp add: catalog_ok_def)
next
  fix x
  from assms(2) show "students_unique (x\<lparr>students := Some xs\<rparr>)"
    by (simp add: students_unique_def)
qed

lemma catalog_ok_saveCourses [simp]: "catalog_ok (saveCourses s) = catalog_ok s"
  by (simp add: catalog_ok_def)

lemma catalog_ok_enrollUser:
  assumes "catalog_ok s"
  shows "catalog_ok (snd (enrollUser userId courseId now s))"
proof (cases "getCourse courseId s")
  case None
  with assms show ?thesis by (simp add: enrollUser_def)
next
  case (Some c)
  from getCourse_mem [OF Some] assms have "students_unique c"
    by (simp add: catalog_ok_def list_all_iff)
  then have d: "distinct (map fst (students_or_empty c))"
    by (simp add: students_unique_def students_or_empty_def split: option.splits)
  show ?thesis
  proof (cases "userId \<in> fst ` set (students_or_empty c)")
    case True
    with enrollUser_cases(1) [OF Some True] catalog_ok_mutate_students [OF assms d]
    show ?thesis by simp
  next
    case False
    with d have "distinct (map fst (students_or_empty c @ [(userId, now)]))" by simp
    with enrollUser_cases(2) [OF Some False] catalog_ok_mutate_students [OF assms]
    show ?thesis by simp
  qed
qed

section \<open>Uniqueness of user ids among the students of a course\<close>

text \<open>
  C8 (amended). When no course of the catalog lists a user id twice, this is still so
  after any sequence of \<^verbatim>\<open>createCourse\<close>, \<^verbatim>\<open>editCourse\<close>, \<^verbatim>\<open>enrollUser\<close>,
  \<^verbatim>\<open>incrementVisits\<close>, \<^verbatim>\<open>deleteCourse\<close> and \<^verbatim>\<open>courseDeletion\<close>, provided the
  students handed to \<^verbatim>\<open>createCourse\<close> and \<^verbatim>\<open>editCourse\<close> by the caller list no user id
  twice.
\<close>

theorem students_unique_preserved:
  assumes "catalog_ok s" and "list_all supplied_students_unique ops"
  shows "catalog_ok (fold perform ops s)"
  using assms
proof (induction ops arbitrary: s)
  case Nil
  then show ?case by simp
next
  case (Cons a ops)
  from Cons.prems have a: "supplied_students_unique a" and r: "list_all supplied_students_unique ops"
    by simp_all
  have "catalog_ok (perform a s)"
  proof (cases a)
    case (OpCreate arg)
    with a Cons.prems(1) show ?thesis by (simp add: catalog_ok_createCourse)
  next
    case (OpEdit i data)
    with a Cons.prems(1) show ?thesis by (simp add: catalog_ok_editCourse)
  next
    case (OpEnroll userId courseId now)
    with Cons.prems(1) show ?thesis by (simp add: catalog_ok_enrollUser)
  next
    case (OpVisit courseId)
    with Cons.prems(1) show ?thesis by (simp add: catalog_ok_incrementVisits)
  next
    case (OpDelete i)
    with Cons.prems(1) show ?thesis by (simp add: catalog_ok_deleteCourse)
  next
    case (OpCourseDeletion courseId)
    with Cons.prems(1) show ?thesis by (simp add: catalog_ok_courseDeletion)
  qed
  from Cons.IH [OF this r] show ?case by simp
qed

text \<open>
  A run on the seeded catalog: a course is created with id 3, user 7 enrolls in it, a
  second enrollment of user 7 is refused, the course is edited and visited, and
  course 1 is deleted.
\<close>

theorem students_unique_preserved_witness:
  "catalog_ok seeded_repo
   \<and> list_all supplied_students_unique
        [OpCreate (Some (titled ''A'')), OpEnroll (JNum 7) 3 ''t1'', OpEnroll (JNum 7) 3 ''t2'',
         OpEdit 3 (cats_patch (CArr [''x''])), OpVisit 3, OpCourseDeletion 1]
   \<and> catalog_ok (fold perform
        [OpCreate (Some (titled ''A'')), OpEnroll (JNum 7) 3 ''t1'', OpEnroll (JNum 7) 3 ''t2'',
         OpEdit 3 (cats_patch (CArr [''x''])), OpVisit 3, OpCourseDeletion 1] seeded_repo)
   \<and> map_option students (getCourse 3 (fold perform
        [OpCreate (Some (titled ''A'')), OpEnroll (JNum 7) 3 ''t1'', OpEnroll (JNum 7) 3 ''t2'',
         OpEdit 3 (cats_patch (CArr [''x''])), OpVisit 3, OpCourseDeletion 1] seeded_repo))
       = Some (Some [(JNum 7, ''t1'')])"
proof -
  have h1: "catalog_ok seeded_repo"
    by (simp add: catalog_ok_def seeded_repo_def seed_def students_unique_def)
  have h2: "list_all supplied_students_unique
        [OpCreate (Some (titled ''A'')), OpEnroll (JNum 7) 3 ''t1'', OpEnroll (JNum 7) 3 ''t2'',
         OpEdit 3 (cats_patch (CArr [''x''])), OpVisit 3, OpCourseDeletion 1]"
    by (simp add: partial_students_unique_def titled_def cats_patch_def)
  have v: "map_option students (getCourse 3 (fold perform
        [OpCreate (Some (titled ''A'')), OpEnroll (JNum 7) 3 ''t1'', OpEnroll (JNum 7) 3 ''t2'',
         OpEdit 3 (cats_patch (CArr [''x''])), OpVisit 3, OpCourseDeletion 1] seeded_repo))
       = Some (Some [(JNum 7, ''t1'')])"
    by (simp add: createCourse_def has_title_def newCourse_def generateUniqueCourseId_def
      enrollUser_def getCourse_def mutate_course_def students_or_empty_def saveCourses_def
      editCourse_def findCourseIndex_def edit_categories_def oldCategories_def merge_def
      incrementVisits_def visits_or0_def courseDeletion_def deleteCourse_def splice1_def cascade_def
      cleanupCourseData_def listUsers_def
      cats_patch_def titled_def seeded_repo_def empty_repo_def seed_def Let_def)
  from students_unique_preserved [OF h1 h2] h1 h2 v show ?thesis
    by (intro conjI)
qed

text \<open>
  \<^verbatim>\<open>createCourse\<close> stores the students of its argument as they are: a course created
  with user 1 listed twice has user 1 twice among its students.
\<close>

theorem createCourse_keeps_repeated_student:
  "catalog_ok seeded_repo
   \<and> map_option students (fst (createCourse (Some twice_enrolled) seeded_repo))
       = Some (Some [(JNum 1, ''d1''), (JNum 1, ''d2'')])
   \<and> \<not> catalog_ok (snd (createCourse (Some twice_enrolled) seeded_repo))"
  by (simp add: catalog_ok_def students_unique_def createCourse_def has_title_def newCourse_def
      twice_enrolled_def titled_def seeded_repo_def empty_repo_def seed_def Let_def)

section \<open>The string form of a number\<close>

lemma below_ten: "d < 10 \<Longrightarrow> d \<in> {0, 1, 2, 3, 4, 5, 6, 7, 8, 9::nat}"
  by auto

lemma digit_val_digit_char: "d < 10 \<Longrightarrow> digit_val (digit_char d) = d"
  by (drule below_ten) (auto simp: digit_val_def digit_char_def)

lemma number_of_digits: "number_of (digits n) = n"
proof (induction n rule: digits.induct)
  case (1 n)
  show ?case
  proof (cases "n < 10")
    case True
    then show ?thesis
      by (subst digits.simps) (simp add: number_of_def digit_val_digit_char)
  next
    case False
    with 1 have "number_of (digits (n div 10)) = n div 10" by simp
    with False show ?thesis
      by (subst digits.simps) (simp add: number_of_def digit_val_digit_char)
  qed
qed

lemma digits_inject:
  assumes "digits m = digits n"
  shows "m = n"
proof -
  from assms have "number_of (digits m) = number_of (digits n)" by (rule arg_cong)
  then show ?thesis by (simp only: number_of_digits)
qed

lemma digit_char_not_minus: "d < 10 \<Longrightarrow> digit_char d \<noteq> CHR ''-''"
  by (drule below_ten) (auto simp: digit_char_def)

lemma digits_not_Nil: "digits n \<noteq> []"
  by (subst digits.simps) simp

lemma hd_digits: "hd (digits n) \<noteq> CHR ''-''"
proof (induction n rule: digits.induct)
  case (1 n)
  show ?case
  proof (cases "n < 10")
    case True
    then show ?thesis
      by (subst digits.simps) (simp add: digit_char_not_minus)
  next
    case False
    with 1 digits_not_Nil [of "n div 10"] show ?thesis
      by (subst digits.simps) simp
  qed
qed

lemma digits_not_minus: "digits n \<noteq> CHR ''-'' # cs"
  using hd_digits [of n] by auto

lemma String_JNum_inject: "String (JNum m) = String (JNum n) \<longleftrightarrow> m = n"
proof
  assume e: "String (JNum m) = String (JNum n)"
  show "m = n"
  proof (cases "m < 0")
    case True
    note m = this
    show ?thesis
    proof (cases "n < 0")
      case True
      with m e have "digits (nat (- m)) = digits (nat (- n))" by simp
      from digits_inject [OF this] m True show ?thesis by simp
    next
      case False
      with m e [symmetric] digits_not_minus [of "nat n"] show ?thesis by simp
    qed
  next
    case False
    note m = this
    show ?thesis
    proof (cases "n < 0")
      case True
      with m e digits_not_minus [of "nat m"] show ?thesis by simp
    next
      case False
      with m e have "digits (nat m) = digits (nat n)" by simp
      from digits_inject [OF this] m False show ?thesis by simp
    qed
  qed
qed simp

lemma digits_5: "digits 5 = ''5''"
  by (simp add: digits.simps digit_char_def)

lemma String_12: "String (JNum 120) = ''120''"
  by (simp add: digits.simps digit_char_def)

section \<open>Enrollment compares user ids strictly\<close>

lemmas run_simps = enrollUser_def getCourse_def mutate_course_def students_or_empty_def
  saveCourses_def seeded_repo_def empty_repo_def seed_def Let_def

lemma once_enrolled_course:
  "getCourse 1 once_enrolled = Some ((seed ! 0)\<lparr>students := Some [(JNum 5, ''t1'')]\<rparr>)"
  by (simp add: once_enrolled_def run_simps)

lemma both_enrolled_course:
  "getCourse 1 both_enrolled
     = Some ((seed ! 0)\<lparr>students := Some [(JNum 5, ''t1''), (JStr ''5'', ''t2'')]\<rparr>)"
  by (simp add: both_enrolled_def once_enrolled_def run_simps)

text \<open>
  C10 (amended). When the students of a course contain an entry with the numeric user
  id \<open>n\<close> and no entry with the string form of \<open>n\<close>, \<^verbatim>\<open>enrollUser\<close> with that string
  returns true and appends an entry (in both modules), so the number and the string
  are both enrolled.
\<close>

theorem enrollUser_number_and_string:
  assumes "getCourse courseId s = Some c"
    and "JNum n \<in> fst ` set (students_or_empty c)"
    and "JStr (String (JNum n)) \<notin> fst ` set (students_or_empty c)"
  shows "fst (enrollUser (JStr (String (JNum n))) courseId now s)
     \<and> map_option students (getCourse courseId (snd (enrollUser (JStr (String (JNum n))) courseId now s)))
         = Some (Some (students_or_empty c @ [(JStr (String (JNum n)), now)]))
     \<and> fst (enrollUser_remote (JStr (String (JNum n))) courseId now s)
     \<and> map_option students
          (getCourse courseId (snd (enrollUser_remote (JStr (String (JNum n))) courseId now s)))
         = Some (Some (students_or_empty c @ [(JStr (String (JNum n)), now)]))
     \<and> {JNum n, JStr (String (JNum n))}
         \<subseteq> fst ` set (students_or_empty c @ [(JStr (String (JNum n)), now)])"
proof -
  let ?u = "JStr (String (JNum n))"
  have g: "getCourse courseId (mutate_course courseId (\<lambda>x. x\<lparr>students := Some xs\<rparr>) s)
             = Some (c\<lparr>students := Some xs\<rparr>)" for xs
    using assms(1) by (simp add: getCourse_mutate_course)
  from enrollUser_cases(2) [OF assms(1) assms(3)] g
  have l: "fst (enrollUser ?u courseId now s)"
    "map_option students (getCourse courseId (snd (enrollUser ?u courseId now s)))
       = Some (Some (students_or_empty c @ [(?u, now)]))"
    by simp_all
  from enrollUser_cases(4) [OF assms(1) assms(3)] g
  have r: "fst (enrollUser_remote ?u courseId now s)"
    "map_option students (getCourse courseId (snd (enrollUser_remote ?u courseId now s)))
       = Some (Some (students_or_empty c @ [(?u, now)]))"
    by simp_all
  from assms(2) have "{JNum n, ?u} \<subseteq> fst ` set (students_or_empty c @ [(?u, now)])"
    by auto
  with l r show ?thesis by simp
qed

text \<open>After \<^verbatim>\<open>enrollUser(5, 1)\<close> on the seeded page, \<^verbatim>\<open>enrollUser("5", 1)\<close> succeeds.\<close>

theorem enrollUser_number_and_string_witness:
  "getCourse 1 once_enrolled = Some ((seed ! 0)\<lparr>students := Some [(JNum 5, ''t1'')]\<rparr>)
   \<and> JNum 5 \<in> fst ` set (students_or_empty ((seed ! 0)\<lparr>students := Some [(JNum 5, ''t1'')]\<rparr>))
   \<and> JStr (String (JNum 5)) \<notin> fst ` set (students_or_empty ((seed ! 0)\<lparr>students := Some [(JNum 5, ''t1'')]\<rparr>))
   \<and> fst (enrollUser (JStr (String (JNum 5))) 1 ''t2'' once_enrolled)
   \<and> map_option students (getCourse 1 (snd (enrollUser (JStr (String (JNum 5))) 1 ''t2'' once_enrolled)))
       = Some (Some [(JNum 5, ''t1''), (JStr ''5'', ''t2'')])"
proof -
  let ?c = "(seed ! 0)\<lparr>students := Some [(JNum 5, ''t1'')]\<rparr>"
  have h2: "JNum 5 \<in> fst ` set (students_or_empty ?c)"
    by (simp add: students_or_empty_def)
  have h3: "JStr (String (JNum 5)) \<notin> fst ` set (students_or_empty ?c)"
    by (simp add: students_or_empty_def)
  have e: "students_or_empty ?c @ [(JStr (String (JNum 5)), ''t2'')]
             = [(JNum 5, ''t1''), (JStr ''5'', ''t2'')]"
    by (simp add: students_or_empty_def digits_5)
  from enrollUser_number_and_string [OF once_enrolled_course h2 h3, of "''t2''"]
    once_enrolled_course h2 h3
  show ?thesis unfolding e by (simp add: digits_5)
qed

text \<open>
  Once the string has been enrolled as well, the course contains an entry with the
  numeric id 5, and \<^verbatim>\<open>enrollUser("5", 1)\<close> returns false and appends nothing.
\<close>

theorem enrollUser_string_already_enrolled:
  "map_option students (getCourse 1 both_enrolled)
     = Some (Some [(JNum 5, ''t1''), (JStr ''5'', ''t2'')])
   \<and> String (JNum 5) = ''5''
   \<and> fst (enrollUser (JStr (String (JNum 5))) 1 ''t3'' both_enrolled) = False
   \<and> map_option students (getCourse 1 (snd (enrollUser (JStr (String (JNum 5))) 1 ''t3'' both_enrolled)))
     = Some (Some [(JNum 5, ''t1''), (JStr ''5'', ''t2'')])"
proof -
  have m: "JStr ''5'' \<in> fst ` set (students_or_empty
             ((seed ! 0)\<lparr>students := Some [(JNum 5, ''t1''), (JStr ''5'', ''t2'')]\<rparr>))"
    by (simp add: students_or_empty_def)
  from enrollUser_cases(1) [OF both_enrolled_course m, of "''t3''"] both_enrolled_course
  show ?thesis
    by (simp add: digits_5 getCourse_mutate_course students_or_empty_def)
qed

section \<open>Cascading deletion\<close>

lemma users_forEach:
  assumes "users s = pre @ xs" and "length pre = k"
  shows "users (foldl (\<lambda>st (r, student). updateUser r (remainingCourses i student) st) s
                 (filter (\<lambda>(r, u). role u = ''student'') (enumerate k xs)))
           = pre @ map (without_course i) xs"
  using assms
proof (induction xs arbitrary: pre k s)
  case Nil
  then show ?case by simp
next
  case (Cons x xs)
  have z: "enumerate k (x # xs) = (k, x) # enumerate (Suc k) xs"
    by simp
  show ?case
  proof (cases "role x = ''student''")
    case True
    let ?s1 = "updateUser k (remainingCourses i x) s"
    from Cons.prems have "users ?s1 = (pre @ [without_course i x]) @ xs"
      by (simp add: updateUser_def without_course_def remainingCourses_def True nth_append
          list_update_append)
    from Cons.IH [OF this, of "Suc k"] Cons.prems(2) True show ?thesis
      by (simp add: z)
  next
    case False
    from Cons.prems have "users s = (pre @ [without_course i x]) @ xs"
      by (simp add: without_course_def False)
    from Cons.IH [OF this, of "Suc k"] Cons.prems(2) False show ?thesis
      by (simp add: z)
  qed
qed

lemma updateUser_fields [simp]:
  "calls (updateUser r ec s) = calls s @ [UpdateUser r ec]"
  "progress (updateUser r ec s) = progress s"
  "storage (updateUser r ec s) = storage s"
  "requests (updateUser r ec s) = requests s"
  by (simp_all add: updateUser_def)

lemma calls_forEach:
  "calls (foldl (\<lambda>st (r, student). updateUser r (g student) st) s ps)
     = calls s @ map (\<lambda>(r, u). UpdateUser r (g u)) ps"
  by (induction ps arbitrary: s) (simp_all add: split_def)

lemma progress_forEach:
  "progress (foldl (\<lambda>st (r, student). updateUser r (g student) st) s ps) = progress s"
  by (induction ps arbitrary: s) (simp_all add: split_def)

lemma storage_forEach:
  "storage (foldl (\<lambda>st (r, student). updateUser r (g student) st) s ps) = storage s"
  by (induction ps arbitrary: s) (simp_all add: split_def)

lemma requests_forEach:
  "requests (foldl (\<lambda>st (r, student). updateUser r (g student) st) s ps) = requests s"
  by (induction ps arbitrary: s) (simp_all add: split_def)

lemmas others_forEach = calls_forEach progress_forEach storage_forEach requests_forEach

lemma cascade_effect:
  "users (cascade i s) = map (without_course i) (users s)"
  "calls (cascade i s) = calls s @ CleanupCourseData i # ListUsers # update_calls i (users s)"
  "progress (cascade i s) = filter (\<lambda>r. pr_course r \<noteq> i) (progress s)"
  "courseList (cascade i s) = courseList s"
  "storage (cascade i s) = storage s"
  "requests (cascade i s) = requests s"
proof -
  let ?s3 = "s\<lparr>progress := filter (\<lambda>r. pr_course r \<noteq> i) (progress s),
               calls := calls s @ [CleanupCourseData i, ListUsers]\<rparr>"
  let ?ps = "filter (\<lambda>(r, u). role u = ''student'') (enumerate 0 (users s))"
  have c: "cascade i s = foldl (\<lambda>st (r, student). updateUser r (remainingCourses i student) st) ?s3 ?ps"
    by (simp add: cascade_def cleanupCourseData_def listUsers_def Let_def)
  have "users ?s3 = [] @ users s" by simp
  from users_forEach [OF this, of 0 i] show "users (cascade i s) = map (without_course i) (users s)"
    by (simp add: c)
  show "calls (cascade i s) = calls s @ CleanupCourseData i # ListUsers # update_calls i (users s)"
    by (simp add: c others_forEach update_calls_def remainingCourses_def)
  show "progress (cascade i s) = filter (\<lambda>r. pr_course r \<noteq> i) (progress s)"
    by (simp add: c others_forEach)
  show "courseList (cascade i s) = courseList s" by simp
  show "storage (cascade i s) = storage s" by (simp add: c others_forEach)
  show "requests (cascade i s) = requests s" by (simp add: c others_forEach)
qed

lemma without_course_clean:
  assumes "u \<in> set (map (without_course i) us)" and "role u = ''student''"
  shows "JNum i \<notin> set (enrolledCourses u) \<and> JStr (String (JNum i)) \<notin> set (enrolledCourses u)
         \<and> (\<forall>e\<in>set (enrolledCourses u). String e \<noteq> String (JNum i))"
proof -
  from assms(1) obtain u0 where u: "u = without_course i u0" by auto
  with assms(2) have "role u0 = ''student''"
    by (auto simp: without_course_def split: if_splits)
  with u have "enrolledCourses u
                 = filter (\<lambda>e. String e \<noteq> String (JNum i)) (enrolledCourses u0)"
    by (simp add: without_course_def)
  then show ?thesis by auto
qed

lemma splice1_first_absent:
  assumes "findIndex p xs \<noteq> - 1" and "distinct (map f xs)" and "\<And>x y. p x \<Longrightarrow> p y \<Longrightarrow> f x = f y"
  shows "\<forall>x\<in>set (splice1 (nat (findIndex p xs)) xs). \<not> p x"
proof -
  define n where "n = nat (findIndex p xs)"
  from findIndex_found [OF assms(1)] have n: "n < length xs" and pn: "p (xs ! n)"
    by (simp_all add: n_def)
  show ?thesis
    unfolding n_def [symmetric]
  proof
    fix x assume "x \<in> set (splice1 n xs)"
    then have "x \<in> set (take n xs) \<or> x \<in> set (drop (Suc n) xs)"
      by (simp add: splice1_def)
    then have "\<exists>j. j < length xs \<and> j \<noteq> n \<and> x = xs ! j"
    proof
      assume "x \<in> set (take n xs)"
      then obtain j where "j < n" "j < length xs" "x = xs ! j"
        by (auto simp: in_set_conv_nth)
      then show ?thesis by (intro exI [of _ j]) simp
    next
      assume "x \<in> set (drop (Suc n) xs)"
      then obtain m where m: "m < length (drop (Suc n) xs)" "x = drop (Suc n) xs ! m"
        unfolding in_set_conv_nth by blast
      then have "Suc n + m < length xs" and "x = xs ! (Suc n + m)"
        by simp_all
      then show ?thesis by (intro exI [of _ "Suc n + m"]) simp
    qed
    then obtain j where j: "j < length xs" "j \<noteq> n" "x = xs ! j"
      by blast
    show "\<not> p x"
    proof
      assume "p x"
      with pn assms(3) j have "f (xs ! j) = f (xs ! n)" by blast
      with assms(2) j n show False
        by (simp add: distinct_conv_nth)
    qed
  qed
qed

lemma getCourse_None_index: "getCourse i s = None \<longleftrightarrow> findCourseIndex i s = - 1"
  by (simp add: getCourse_def find_findIndex findCourseIndex_def)

lemma deleteCourse_cases:
  "getCourse i s = None \<Longrightarrow> deleteCourse i s = (False, s)"
  "getCourse i s = None \<Longrightarrow> deleteCourse_remote i deleted s = (False, s)"
  "getCourse i s \<noteq> None \<Longrightarrow> deleteCourse i s
     = (True, saveCourses (s\<lparr>courseList := splice1 (nat (findCourseIndex i s)) (courseList s)\<rparr>))"
  "getCourse i s \<noteq> None \<Longrightarrow> deleteCourse_remote i (HttpOk u) s
     = (True, s\<lparr>requests := requests s @ [DeleteRequest i],
                courseList := splice1 (nat (findCourseIndex i s)) (courseList s)\<rparr>)"
  by (simp_all add: deleteCourse_def deleteCourse_remote_def Let_def getCourse_None_index)

lemma deleteCourse_remote_refused:
  "deleted \<noteq> HttpOk () \<Longrightarrow> getCourse i s \<noteq> None \<Longrightarrow> deleteCourse_remote i deleted s
     = (False, s\<lparr>requests := requests s @ [DeleteRequest i]\<rparr>)"
  by (cases deleted) (simp_all add: deleteCourse_remote_def Let_def getCourse_None_index)

lemma saveCourses_fields [simp]:
  "users (saveCourses s) = users s" "calls (saveCourses s) = calls s"
  "progress (saveCourses s) = progress s" "requests (saveCourses s) = requests s"
  by (simp_all add: saveCourses_def)

lemma remaining_ids:
  assumes "getCourse i s \<noteq> None" and "distinct (map cid (courseList s))"
  shows "\<forall>c\<in>set (splice1 (nat (findCourseIndex i s)) (courseList s)). cid c \<noteq> i"
proof -
  from assms(1) have ne: "findIndex (\<lambda>c. cid c = i) (courseList s) \<noteq> - 1"
    by (simp add: getCourse_def find_findIndex)
  have "\<forall>c\<in>set (splice1 (nat (findIndex (\<lambda>c. cid c = i) (courseList s))) (courseList s)).
          \<not> cid c = i"
    by (rule splice1_first_absent [OF ne assms(2)]) simp
  then show ?thesis
    by (simp only: findCourseIndex_def)
qed

section \<open>The remote-backed module: creation and loading\<close>

lemma fetchCourses_effect:
  "courseList (snd (fetchCourses fetched s)) = (case fetched of HttpOk d \<Rightarrow> d | HttpError \<Rightarrow> courseList s | NetworkError \<Rightarrow> courseList s)"
  "requests (snd (fetchCourses fetched s)) = requests s @ [GetCourses]"
  "fst (fetchCourses fetched s) = (case fetched of HttpOk d \<Rightarrow> d | HttpError \<Rightarrow> [] | NetworkError \<Rightarrow> [])"
  "users (snd (fetchCourses fetched s)) = users s"
  by (cases fetched; simp add: fetchCourses_def Let_def)+

lemma createCourse_remote_titled:
  assumes "has_title p"
  shows "createCourse_remote (Some p) fetched added s =
     (let s0 = (if courseList s = [] then snd (fetchCourses fetched s) else s);
          c = newCourse p (next_id (after_load fetched (courseList s)));
          s1 = s0\<lparr>requests := requests s0 @ [PostAdd c]\<rparr>
      in case added of HttpOk u \<Rightarrow> (Some c, s1\<lparr>courseList := after_load fetched (courseList s) @ [c]\<rparr>)
         | HttpError \<Rightarrow> (None, s1) | NetworkError \<Rightarrow> (None, s1))"
proof -
  have l: "courseList (if courseList s = [] then snd (fetchCourses fetched s) else s)
             = after_load fetched (courseList s)"
    by (cases fetched) (simp_all add: after_load_def fetchCourses_effect)
  show ?thesis
    using assms unfolding createCourse_remote_def Let_def generateUniqueCourseId_eq
    by (cases added) (simp_all add: l)
qed

lemma createCourse_remote_rejected:
  "createCourse_remote None fetched added s = (None, s)"
  "\<not> has_title p \<Longrightarrow> createCourse_remote (Some p) fetched added s = (None, s)"
  by (simp_all add: createCourse_remote_def)

lemma courseList_after_failed_add:
  assumes "added \<noteq> HttpOk ()"
  shows "fst (createCourse_remote arg fetched added s) = None"
    and "courseList (snd (createCourse_remote arg fetched added s))
           = (case arg of None \<Rightarrow> courseList s
              | Some p \<Rightarrow> if has_title p then after_load fetched (courseList s) else courseList s)"
proof -
  have l: "courseList (if courseList s = [] then snd (fetchCourses fetched s) else s)
             = after_load fetched (courseList s)"
    by (cases fetched) (simp_all add: after_load_def fetchCourses_effect)
  show "fst (createCourse_remote arg fetched added s) = None"
  proof (cases arg)
    case None
    then show ?thesis by (simp add: createCourse_remote_rejected)
  next
    case (Some p)
    with assms show ?thesis
      by (cases "has_title p"; cases added)
         (simp_all add: createCourse_remote_rejected createCourse_remote_titled Let_def)
  qed
  show "courseList (snd (createCourse_remote arg fetched added s))
           = (case arg of None \<Rightarrow> courseList s
              | Some p \<Rightarrow> if has_title p then after_load fetched (courseList s) else courseList s)"
  proof (cases arg)
    case None
    then show ?thesis by (simp add: createCourse_remote_rejected)
  next
    case (Some p)
    with assms show ?thesis
      by (cases "has_title p"; cases added)
         (simp_all add: createCourse_remote_rejected createCourse_remote_titled Let_def l)
  qed
qed

lemma created_remote:
  assumes "fst (createCourse_remote arg fetched added s) = Some c"
  shows "added = HttpOk ()"
    and "courseList (snd (createCourse_remote arg fetched added s))
           = after_load fetched (courseList s) @ [c]"
    and "PostAdd c \<in> set (requests (snd (createCourse_remote arg fetched added s)))"
proof -
  from assms obtain p where ap: "arg = Some p"
    by (cases arg) (simp_all add: createCourse_remote_rejected)
  with assms have "has_title p"
    by (cases "has_title p") (simp_all add: createCourse_remote_rejected)
  note p = ap this
  from assms show a: "added = HttpOk ()"
    by (cases added) (simp_all add: p createCourse_remote_titled Let_def)
  from assms a show "courseList (snd (createCourse_remote arg fetched added s))
           = after_load fetched (courseList s) @ [c]"
    by (auto simp: p createCourse_remote_titled Let_def)
  from assms a show "PostAdd c \<in> set (requests (snd (createCourse_remote arg fetched added s)))"
    by (auto simp: p createCourse_remote_titled Let_def)
qed

text \<open>
  C3 (amended). In the remote-backed module, when the backend write fails,
  \<^verbatim>\<open>createCourse\<close> returns null and appends nothing: a non-empty catalog is left as it
  was, and an empty catalog is left as the load that precedes the id generation made
  it (the fetched catalog, or still empty when that load fails). A created course is
  returned only on a successful answer, after the request that carried it, and is then
  the last entry of the catalog.
\<close>

theorem createCourse_remote_failed_write:
  "(added \<noteq> HttpOk () \<longrightarrow>
      fst (createCourse_remote arg fetched added s) = None
      \<and> courseList (snd (createCourse_remote arg fetched added s))
          = (case arg of None \<Rightarrow> courseList s
             | Some p \<Rightarrow> if has_title p then after_load fetched (courseList s) else courseList s)
      \<and> (courseList s \<noteq> [] \<longrightarrow> courseList (snd (createCourse_remote arg fetched added s)) = courseList s))
   \<and> (\<forall>c. fst (createCourse_remote arg fetched added s) = Some c \<longrightarrow>
          added = HttpOk ()
          \<and> courseList (snd (createCourse_remote arg fetched added s))
              = after_load fetched (courseList s) @ [c]
          \<and> PostAdd c \<in> set (requests (snd (createCourse_remote arg fetched added s))))"
proof (intro conjI impI allI)
  assume a: "added \<noteq> HttpOk ()"
  from courseList_after_failed_add [OF a]
  show "fst (createCourse_remote arg fetched added s) = None"
    and e: "courseList (snd (createCourse_remote arg fetched added s))
          = (case arg of None \<Rightarrow> courseList s
             | Some p \<Rightarrow> if has_title p then after_load fetched (courseList s) else courseList s)"
    by simp_all
  assume "courseList s \<noteq> []"
  then show "courseList (snd (createCourse_remote arg fetched added s)) = courseList s"
    unfolding e by (simp add: after_load_def split: option.splits)
next
  fix c assume c: "fst (createCourse_remote arg fetched added s) = Some c"
  from created_remote [OF c]
  show "added = HttpOk ()"
    and "courseList (snd (createCourse_remote arg fetched added s))
              = after_load fetched (courseList s) @ [c]"
    and "PostAdd c \<in> set (requests (snd (createCourse_remote arg fetched added s)))"
    by simp_all
qed

lemma newCourse_titled:
  "newCourse (titled t) i = \<lparr>cid = i, title = Some t, description = None, instructor = None,
     students = Some [], categories = CArr [], visits = Some 0, price = Some 0,
     duration = Some ''N/A''\<rparr>"
  by (simp add: newCourse_def titled_def)

text \<open>On the seeded catalog: a refused write, and an accepted one that creates course 3.\<close>

theorem createCourse_remote_failed_write_witness:
  "(HttpError :: unit response) \<noteq> HttpOk ()
   \<and> courseList seeded_repo \<noteq> []
   \<and> fst (createCourse_remote (Some (titled ''A'')) NetworkError HttpError seeded_repo) = None
   \<and> courseList (snd (createCourse_remote (Some (titled ''A'')) NetworkError HttpError seeded_repo))
       = courseList seeded_repo
   \<and> fst (createCourse_remote (Some (titled ''A'')) NetworkError (HttpOk ()) seeded_repo)
       = Some (newCourse (titled ''A'') 3)
   \<and> courseList (snd (createCourse_remote (Some (titled ''A'')) NetworkError (HttpOk ()) seeded_repo))
       = seed @ [newCourse (titled ''A'') 3]"
proof -
  have ne: "(HttpError :: unit response) \<noteq> HttpOk ()" by simp
  have cl: "courseList seeded_repo \<noteq> []" "courseList seeded_repo = seed"
    by (simp_all add: seeded_repo_def seed_def)
  have t: "has_title (titled ''A'')" by (simp add: has_title_def titled_def)
  have n: "next_id seed = 3" by (simp add: next_id_def seed_def)
  have sn: "seed \<noteq> []" by (simp add: seed_def)
  have ok: "fst (createCourse_remote (Some (titled ''A'')) NetworkError (HttpOk ()) seeded_repo)
       = Some (newCourse (titled ''A'') 3)"
    by (simp add: createCourse_remote_titled [OF t] Let_def after_load_def cl(2) sn n)
  from createCourse_remote_failed_write
         [of HttpError "Some (titled ''A'')" NetworkError seeded_repo] ne cl(1)
  have a: "fst (createCourse_remote (Some (titled ''A'')) NetworkError HttpError seeded_repo) = None"
    "courseList (snd (createCourse_remote (Some (titled ''A'')) NetworkError HttpError seeded_repo))
       = courseList seeded_repo"
    by blast+
  from createCourse_remote_failed_write
         [of "HttpOk ()" "Some (titled ''A'')" NetworkError seeded_repo] ok
  have b: "courseList (snd (createCourse_remote (Some (titled ''A'')) NetworkError (HttpOk ()) seeded_repo))
       = after_load NetworkError (courseList seeded_repo) @ [newCourse (titled ''A'') 3]"
    by blast
  from ne sn a ok b show ?thesis
    by (simp add: after_load_def cl(2))
qed

text \<open>
  With an empty catalog the call first loads the catalog from the backend; when the
  write then fails, the call returns null but the local catalog has changed from
  empty to the two fetched courses.
\<close>

theorem createCourse_remote_loads_before_failing:
  "courseList empty_repo = []
   \<and> fst (createCourse_remote (Some (titled ''A'')) (HttpOk seed) HttpError empty_repo) = None
   \<and> courseList (snd (createCourse_remote (Some (titled ''A'')) (HttpOk seed) HttpError empty_repo))
       = seed
   \<and> seed \<noteq> []"
proof -
  have t: "has_title (titled ''A'')" by (simp add: has_title_def titled_def)
  show ?thesis
    by (simp add: createCourse_remote_titled [OF t] Let_def fetchCourses_effect empty_repo_def)
       (simp add: seed_def)
qed

lemma listCourses_remote_cached:
  "courseList s \<noteq> [] \<Longrightarrow> listCourses_remote r s = (courseList s, s)"
  by (simp add: listCourses_remote_def)

lemma listCourses_remote_load:
  "courseList s = [] \<Longrightarrow> listCourses_remote r s = fetchCourses r s"
  by (simp add: listCourses_remote_def)

lemma listCourses_run_cached:
  "courseList s \<noteq> [] \<Longrightarrow> listCourses_run rs s = (replicate (length rs) (courseList s), s)"
  by (induction rs) (simp_all add: listCourses_remote_cached)

lemma listCourses_run_loads:
  "courseList s = [] \<Longrightarrow>
     requests (snd (listCourses_run rs s))
       = requests s @ replicate (min (length rs) (Suc (length (takeWhile empty_answer rs)))) GetCourses"
proof (induction rs arbitrary: s)
  case Nil
  then show ?case by simp
next
  case (Cons r rs)
  let ?s1 = "snd (fetchCourses r s)"
  have run: "snd (listCourses_run (r # rs) s) = snd (listCourses_run rs ?s1)"
    using Cons.prems by (simp add: listCourses_remote_load split_def Let_def)
  show ?case
  proof (cases "empty_answer r")
    case True
    with Cons.prems have "courseList ?s1 = []"
      by (cases r) (simp_all add: fetchCourses_effect empty_answer_def)
    from Cons.IH [OF this] True show ?thesis
      unfolding run by (simp add: fetchCourses_effect)
  next
    case False
    then have "courseList ?s1 \<noteq> []"
      by (cases r) (simp_all add: fetchCourses_effect empty_answer_def)
    from listCourses_run_cached [OF this] False show ?thesis
      unfolding run by (simp add: fetchCourses_effect)
  qed
qed

lemma listCourses_remote_returns_catalog:
  "fst (listCourses_remote r s) = courseList (snd (listCourses_remote r s))"
  by (cases "courseList s = []"; cases r)
     (simp_all add: listCourses_remote_cached listCourses_remote_load fetchCourses_effect)

text \<open>
  C6 (amended). \<^verbatim>\<open>listCourses()\<close> sends a load request exactly when the catalog in
  memory is empty, and returns the catalog as it is after the call. In a run of calls
  that starts with a non-empty catalog nothing is loaded and every call returns that
  catalog; in a run that starts with an empty one, a load is sent by the first call and
  by every further call as long as all earlier answers left the catalog empty.
\<close>

theorem listCourses_loads_while_empty:
  "(courseList s \<noteq> [] \<longrightarrow> listCourses_run rs s = (replicate (length rs) (courseList s), s))
   \<and> (courseList s = [] \<longrightarrow>
        requests (snd (listCourses_run rs s))
          = requests s @ replicate (min (length rs) (Suc (length (takeWhile empty_answer rs)))) GetCourses)
   \<and> fst (listCourses_remote r s) = courseList (snd (listCourses_remote r s))
   \<and> requests (snd (listCourses_remote r s))
       = (if courseList s = [] then requests s @ [GetCourses] else requests s)"
proof -
  have "requests (snd (listCourses_remote r s))
       = (if courseList s = [] then requests s @ [GetCourses] else requests s)"
    by (simp add: listCourses_remote_cached listCourses_remote_load fetchCourses_effect)
  then show ?thesis
    by (simp add: listCourses_run_cached listCourses_run_loads listCourses_remote_returns_catalog)
qed

text \<open>
  Two calls on the seeded catalog load nothing; three calls on an empty catalog whose
  first load brings the two seed courses send one request.
\<close>

theorem listCourses_loads_while_empty_witness:
  "courseList empty_repo = [] \<and> courseList seeded_repo \<noteq> []
   \<and> listCourses_run [NetworkError, HttpOk seed] seeded_repo = ([seed, seed], seeded_repo)
   \<and> requests (snd (listCourses_run [HttpOk seed, NetworkError, HttpOk []] empty_repo)) = [GetCourses]
   \<and> fst (listCourses_run [HttpOk seed, NetworkError, HttpOk []] empty_repo) = [seed, seed, seed]"
proof -
  have e: "courseList empty_repo = []" "requests empty_repo = []" by (simp_all add: empty_repo_def)
  have n: "courseList seeded_repo \<noteq> []" "courseList seeded_repo = seed"
    by (simp_all add: seeded_repo_def seed_def)
  have k: "\<not> empty_answer (HttpOk seed)" by (simp add: empty_answer_def seed_def)
  have c: "courseList (empty_repo\<lparr>requests := [GetCourses], courseList := seed\<rparr>) \<noteq> []"
    by (simp add: seed_def)
  have v: "fst (listCourses_run [HttpOk seed, NetworkError, HttpOk []] empty_repo) = [seed, seed, seed]"
    by (simp add: listCourses_remote_load e fetchCourses_def listCourses_remote_cached [OF c])
  from listCourses_loads_while_empty [of seeded_repo "[NetworkError, HttpOk seed]"] n
  have a: "listCourses_run [NetworkError, HttpOk seed] seeded_repo = ([seed, seed], seeded_repo)"
    by (simp add: numeral_2_eq_2)
  from listCourses_loads_while_empty [of empty_repo "[HttpOk seed, NetworkError, HttpOk []]"] e k
  have b: "requests (snd (listCourses_run [HttpOk seed, NetworkError, HttpOk []] empty_repo)) = [GetCourses]"
    by simp
  from e n a b v show ?thesis by simp
qed

text \<open>
  Two calls send two load requests when the backend's catalog is empty, and also when
  the first load fails.
\<close>

theorem listCourses_loads_again:
  "requests (snd (listCourses_run [HttpOk [], HttpOk []] empty_repo)) = [GetCourses, GetCourses]
   \<and> requests (snd (listCourses_run [NetworkError, HttpOk seed] empty_repo)) = [GetCourses, GetCourses]"
  by (simp add: listCourses_remote_def fetchCourses_def empty_repo_def Let_def)

section \<open>Identifiers of created courses, in both modules\<close>
lemma createCourse_remote_ok:
  assumes "has_title p"
  shows "fst (createCourse_remote (Some p) fetched (HttpOk ()) s)
           = Some (newCourse p (next_id (after_load fetched (courseList s))))"
    and "courseList (snd (createCourse_remote (Some p) fetched (HttpOk ()) s))
           = after_load fetched (courseList s) @ [newCourse p (next_id (after_load fetched (courseList s)))]"
  by (simp_all add: createCourse_remote_titled [OF assms] Let_def)

lemma after_load_nonempty: "cl \<noteq> [] \<Longrightarrow> after_load fetched cl = cl"
  by (simp add: after_load_def)

lemma createCourses_remote_run:
  assumes "\<forall>(p, f)\<in>set ps. has_title p"
  shows "\<exists>cs. fst (createCourses_remote ps s) = map Some cs \<and> length cs = length ps
            \<and> courseList (snd (createCourses_remote ps s)) = first_load ps (courseList s) @ cs
            \<and> (\<forall>k < length cs. cid (cs ! k) = next_id (first_load ps (courseList s) @ take k cs))"
  using assms
proof (induction ps arbitrary: s)
  case Nil
  then show ?case by (simp add: first_load_def)
next
  case (Cons a ps)
  obtain p fetched where a: "a = (p, fetched)" by (cases a)
  let ?base = "after_load fetched (courseList s)"
  let ?c = "newCourse p (next_id ?base)"
  let ?s1 = "snd (createCourse_remote (Some p) fetched (HttpOk ()) s)"
  from Cons.prems a have t: "has_title p" and ts: "\<forall>(p, f)\<in>set ps. has_title p" by simp_all
  have c1: "courseList ?s1 = ?base @ [?c]" by (rule createCourse_remote_ok(2) [OF t])
  then have fl: "first_load ps (courseList ?s1) = ?base @ [?c]"
    by (cases ps) (auto simp: first_load_def after_load_nonempty)
  from Cons.IH [OF ts, of ?s1] obtain cs where
    cs: "fst (createCourses_remote ps ?s1) = map Some cs" "length cs = length ps"
        "courseList (snd (createCourses_remote ps ?s1)) = (?base @ [?c]) @ cs"
        "\<forall>k < length cs. cid (cs ! k) = next_id ((?base @ [?c]) @ take k cs)"
    unfolding fl by blast
  have run: "createCourses_remote (a # ps) s
           = (Some ?c # fst (createCourses_remote ps ?s1), snd (createCourses_remote ps ?s1))"
    using createCourse_remote_ok(1) [OF t, of fetched s]
    by (simp add: a split_def Let_def)
  have fb: "first_load (a # ps) (courseList s) = ?base"
    by (simp add: a first_load_def)
  have "\<forall>k < length (?c # cs). cid ((?c # cs) ! k) = next_id (?base @ take k (?c # cs))"
  proof (intro allI impI)
    fix k assume "k < length (?c # cs)"
    then show "cid ((?c # cs) ! k) = next_id (?base @ take k (?c # cs))"
      using cs(4) by (cases k) auto
  qed
  with cs show ?case
    unfolding run fb by (intro exI [of _ "?c # cs"]) simp
qed

section \<open>Analytics: what is reported\<close>

lemma students_length_eq: "students_length c = enrolled c"
  by (simp add: students_length_def)

lemma visits_or0_eq: "visits_or0 c = visited c"
  by (simp add: visits_or0_def split: option.splits)

lemma by_enrollment_count: "by_enrollment a b = int (enrolled b) - int (enrolled a)"
  by (simp add: by_enrollment_def students_length_def)

lemma by_visits_count: "by_visits a b = visited b - visited a"
  by (simp add: by_visits_def visits_or0_eq)

lemma getAnalytics_on:
  "fst (getAnalytics (s\<lparr>courseList := cl\<rparr>))
     = \<lparr>totalCourses = length cl, totalEnrollments = sum_list (map students_length cl),
        topCourses = take 3 (array_sort by_enrollment cl),
        topVisited = take 3 (array_sort by_visits cl)\<rparr>"
  by (simp add: getAnalytics_def Let_def slice0_def foldl_add_sum)

text \<open>
  C5. \<^verbatim>\<open>getAnalytics()\<close> reports the length of the catalog, the sum of the lengths of
  the student lists, and as \<open>topCourses\<close> (\<open>topVisited\<close>) the first three entries of
  the catalog rearranged by number of students (by visits), largest first, courses of
  equal count staying in catalog order. On the empty catalog the answer is
  \<open>0, 0, [], []\<close>; on the catalog of \<open>course_A\<close> and \<open>course_B\<close> it is 2 courses, 4
  enrollments, \<open>[A, B]\<close> by students and \<open>[B, A]\<close> by visits; on \<open>four_courses\<close> the
  ties come out in catalog order and the fourth-ranked course is cut off. The state
  after the call is the state before it.
\<close>

theorem getAnalytics_spec:
  "totalCourses (fst (getAnalytics s)) = length (courseList s)
   \<and> totalEnrollments (fst (getAnalytics s)) = sum_list (map enrolled (courseList s))
   \<and> (\<exists>ys. topCourses (fst (getAnalytics s)) = take 3 ys
          \<and> mset ys = mset (courseList s)
          \<and> sorted_wrt (\<lambda>a b. enrolled b \<le> enrolled a) ys
          \<and> (\<forall>n. filter (\<lambda>c. enrolled c = n) ys = filter (\<lambda>c. enrolled c = n) (courseList s)))
   \<and> (\<exists>ys. topVisited (fst (getAnalytics s)) = take 3 ys
          \<and> mset ys = mset (courseList s)
          \<and> sorted_wrt (\<lambda>a b. visited b \<le> visited a) ys
          \<and> (\<forall>v. filter (\<lambda>c. visited c = v) ys = filter (\<lambda>c. visited c = v) (courseList s)))
   \<and> fst (getAnalytics (s\<lparr>courseList := []\<rparr>))
       = \<lparr>totalCourses = 0, totalEnrollments = 0, topCourses = [], topVisited = []\<rparr>
   \<and> fst (getAnalytics (s\<lparr>courseList := [course_A, course_B]\<rparr>))
       = \<lparr>totalCourses = 2, totalEnrollments = 4, topCourses = [course_A, course_B],
          topVisited = [course_B, course_A]\<rparr>
   \<and> fst (getAnalytics (s\<lparr>courseList := four_courses\<rparr>))
       = \<lparr>totalCourses = 4, totalEnrollments = 6,
          topCourses = [four_courses ! 1, four_courses ! 3, four_courses ! 0],
          topVisited = [four_courses ! 0, four_courses ! 2, four_courses ! 3]\<rparr>
   \<and> snd (getAnalytics s) = s"
proof -
  let ?cl = "courseList s"
  let ?e = "array_sort by_enrollment ?cl"
  let ?v = "array_sort by_visits ?cl"
  have e1: "sorted_wrt (\<lambda>a b. int (enrolled b) \<le> int (enrolled a)) ?e"
    by (rule sorted_array_sort [OF by_enrollment_count])
  then have e2: "sorted_wrt (\<lambda>a b. enrolled b \<le> enrolled a) ?e"
    by simp
  have e3: "filter (\<lambda>c. enrolled c = n) ?e = filter (\<lambda>c. enrolled c = n) ?cl" for n
    using stable_array_sort [OF by_enrollment_count, where v = "int n" and xs = ?cl] by simp
  have v2: "sorted_wrt (\<lambda>a b. visited b \<le> visited a) ?v"
    by (rule sorted_array_sort [OF by_visits_count])
  have v3: "filter (\<lambda>c. visited c = v) ?v = filter (\<lambda>c. visited c = v) ?cl" for v
    by (rule stable_array_sort [OF by_visits_count])
  have tot: "totalEnrollments (fst (getAnalytics s)) = sum_list (map enrolled ?cl)"
    by (simp add: getAnalytics_fields students_length_def [abs_def])
  have top: "\<exists>ys. topCourses (fst (getAnalytics s)) = take 3 ys
          \<and> mset ys = mset ?cl
          \<and> sorted_wrt (\<lambda>a b. enrolled b \<le> enrolled a) ys
          \<and> (\<forall>n. filter (\<lambda>c. enrolled c = n) ys = filter (\<lambda>c. enrolled c = n) ?cl)"
    using e2 e3 by (intro exI [of _ ?e]) (simp add: getAnalytics_fields mset_array_sort)
  have vis: "\<exists>ys. topVisited (fst (getAnalytics s)) = take 3 ys
          \<and> mset ys = mset ?cl
          \<and> sorted_wrt (\<lambda>a b. visited b \<le> visited a) ys
          \<and> (\<forall>v. filter (\<lambda>c. visited c = v) ys = filter (\<lambda>c. visited c = v) ?cl)"
    using v2 v3 by (intro exI [of _ ?v]) (simp add: getAnalytics_fields mset_array_sort)
  have empty: "fst (getAnalytics (s\<lparr>courseList := []\<rparr>))
       = \<lparr>totalCourses = 0, totalEnrollments = 0, topCourses = [], topVisited = []\<rparr>"
    by (simp add: getAnalytics_on array_sort_def)
  have ab: "fst (getAnalytics (s\<lparr>courseList := [course_A, course_B]\<rparr>))
       = \<lparr>totalCourses = 2, totalEnrollments = 4, topCourses = [course_A, course_B],
          topVisited = [course_B, course_A]\<rparr>"
    by (simp add: getAnalytics_on array_sort_def by_enrollment_def by_visits_def
        students_length_def visits_or0_def course_A_def course_B_def plain_course_def)
  have four: "fst (getAnalytics (s\<lparr>courseList := four_courses\<rparr>))
       = \<lparr>totalCourses = 4, totalEnrollments = 6,
          topCourses = [four_courses ! 1, four_courses ! 3, four_courses ! 0],
          topVisited = [four_courses ! 0, four_courses ! 2, four_courses ! 3]\<rparr>"
    by (simp add: getAnalytics_on array_sort_def by_enrollment_def by_visits_def
        students_length_def visits_or0_def four_courses_def plain_course_def)
  have same: "snd (getAnalytics s) = s" "totalCourses (fst (getAnalytics s)) = length ?cl"
    by (simp_all add: getAnalytics_fields)
  from same tot top vis empty ab four show ?thesis
    by (intro conjI)
qed

section \<open>editCourse and the categories: the union\<close>

lemma spread_oldCategories:
  "spread (oldCategories c)
     = (case old_labels (categories c) of Some os \<Rightarrow> Inr os | None \<Rightarrow> Inl TypeError)"
proof (cases "categories c")
  case (CArr xs)
  then show ?thesis by (simp add: oldCategories_def)
next
  case (CPrim v)
  then show ?thesis by (cases v) (simp_all add: oldCategories_def)
qed

lemma edit_categories_throws:
  assumes "p_categories data = Some v" and "cat_truthy v" and "spread (oldCategories c0) = Inl e"
  shows "edit_categories c0 data = Inl e"
  using assms by (simp add: edit_categories_def)

lemma editCourse_throws:
  assumes "getCourse i s = Some c0" and "edit_categories c0 data = Inl e"
  shows "editCourse i data s = (Inl e, s)" and "editCourse_remote i data s = (Inl e, s)"
  using getCourse_index [OF assms(1)] assms(2)
  by (simp_all add: editCourse_def editCourse_remote_def Let_def)

text \<open>
  C2 (amended). For an existing course id and a patch whose \<^verbatim>\<open>categories\<close> is
  truthy, in both modules: when the stored categories of the course are an array, a
  string or a falsy value, \<^verbatim>\<open>editCourse\<close> sets the categories of the course to the old
  categories (the elements of the array, the characters of the string, nothing for a
  falsy value) followed by the new ones, each label once, in order of first
  occurrence; a truthy patch value that is not an array contributes nothing, so the
  categories become the old ones with repetitions dropped, which leaves a stored array
  without repetition as it is. When the stored categories are \<^verbatim>\<open>true\<close> or a number
  other than 0, \<^verbatim>\<open>editCourse\<close> throws a \<^verbatim>\<open>TypeError\<close> and changes nothing.
\<close>

theorem editCourse_categories_union:
  assumes "getCourse i s = Some c0" and "p_categories data = Some v" and "cat_truthy v"
  shows "case old_labels (categories c0) of
           None \<Rightarrow> editCourse i data s = (Inl TypeError, s)
                   \<and> editCourse_remote i data s = (Inl TypeError, s)
         | Some os \<Rightarrow>
             (\<exists>c. fst (editCourse i data s) = Inr (Some c)
                \<and> fst (editCourse_remote i data s) = Inr (Some c)
                \<and> courseList (snd (editCourse i data s))
                    = (courseList s)[nat (findCourseIndex i s) := c]
                \<and> courseList (snd (editCourse_remote i data s))
                    = (courseList s)[nat (findCourseIndex i s) := c]
                \<and> categories c = CArr (set_spread (os @ patch_list v))
                \<and> distinct (set_spread (os @ patch_list v))
                \<and> set (set_spread (os @ patch_list v)) = set os \<union> set (patch_list v)
                \<and> set_spread (os @ patch_list v)
                    = set_spread os @ filter (\<lambda>x. x \<notin> set os) (set_spread (patch_list v))
                \<and> (distinct os \<longrightarrow> set_spread os = os)
                \<and> (\<not> isArray v \<longrightarrow> categories c = CArr (set_spread os))
                \<and> (\<not> isArray v \<and> categories c0 = CArr os \<and> distinct os
                     \<longrightarrow> categories c = categories c0))"
proof (cases "old_labels (categories c0)")
  case None
  then have "spread (oldCategories c0) = Inl TypeError"
    by (simp add: spread_oldCategories)
  from edit_categories_throws [OF assms(2,3) this]
  have "edit_categories c0 data = Inl TypeError" .
  from editCourse_throws [OF assms(1) this] None show ?thesis by simp
next
  case (Some os)
  then have sp: "spread (oldCategories c0) = Inr os"
    by (simp add: spread_oldCategories)
  let ?d = "data\<lparr>p_categories := Some (CArr (set_spread (os @ patch_list v)))\<rparr>"
  have e: "edit_categories c0 data = Inr ?d"
    by (rule edit_categories_truthy [OF assms(2,3) sp])
  have c: "categories (merge c0 ?d) = CArr (set_spread (os @ patch_list v))"
    by (simp add: merge_def)
  have n: "\<not> isArray v \<longrightarrow> patch_list v = []"
    by (cases v) (simp_all add: patch_list_def)
  have o: "set_spread (os @ patch_list v)
             = set_spread os @ filter (\<lambda>x. x \<notin> set os) (set_spread (patch_list v))"
    by (rule set_spread_append)
  have k: "distinct os \<longrightarrow> set_spread os = os"
    by (simp add: set_spread_distinct)
  have u: "set (set_spread (os @ patch_list v)) = set os \<union> set (patch_list v)"
    by simp
  have r: "\<not> isArray v \<longrightarrow> categories (merge c0 ?d) = CArr (set_spread os)"
    using n by (simp add: merge_def)
  have q: "\<not> isArray v \<and> categories c0 = CArr os \<and> distinct os
             \<longrightarrow> categories (merge c0 ?d) = categories c0"
    using r k by simp
  from editCourse_found [OF assms(1) e] have
    f: "fst (editCourse i data s) = Inr (Some (merge c0 ?d))"
       "fst (editCourse_remote i data s) = Inr (Some (merge c0 ?d))"
       "courseList (snd (editCourse i data s))
          = (courseList s)[nat (findCourseIndex i s) := merge c0 ?d]"
       "courseList (snd (editCourse_remote i data s))
          = (courseList s)[nat (findCourseIndex i s) := merge c0 ?d]"
    by simp_all
  from f c o k u r q have
    "\<exists>c. fst (editCourse i data s) = Inr (Some c)
                \<and> fst (editCourse_remote i data s) = Inr (Some c)
                \<and> courseList (snd (editCourse i data s))
                    = (courseList s)[nat (findCourseIndex i s) := c]
                \<and> courseList (snd (editCourse_remote i data s))
                    = (courseList s)[nat (findCourseIndex i s) := c]
                \<and> categories c = CArr (set_spread (os @ patch_list v))
                \<and> distinct (set_spread (os @ patch_list v))
                \<and> set (set_spread (os @ patch_list v)) = set os \<union> set (patch_list v)
                \<and> set_spread (os @ patch_list v)
                    = set_spread os @ filter (\<lambda>x. x \<notin> set os) (set_spread (patch_list v))
                \<and> (distinct os \<longrightarrow> set_spread os = os)
                \<and> (\<not> isArray v \<longrightarrow> categories c = CArr (set_spread os))
                \<and> (\<not> isArray v \<and> categories c0 = CArr os \<and> distinct os
                     \<longrightarrow> categories c = categories c0)"
    by (intro exI [of _ "merge c0 ?d"] conjI) (rule distinct_set_spread | assumption)+
  with Some show ?thesis by simp
qed

lemma with_number_course:
  "getCourse 3 with_number = Some (newCourse numbered 3)"
  "categories (newCourse numbered 3) = CPrim (JNum 5)"
  by (simp_all add: with_number_def createCourse_def has_title_def newCourse_def numbered_def
      titled_def generateUniqueCourseId_def getCourse_def seeded_repo_def empty_repo_def seed_def
      saveCourses_def Let_def)

text \<open>
  On the seeded catalog, course 1 has the categories multimedia and basics; the patch
  \<^verbatim>\<open>{ categories: ['basics', 'x'] }\<close> makes them multimedia, basics, x. On the page
  where course 3 has the number 5 as its categories the same patch makes
  \<^verbatim>\<open>editCourse\<close> throw, and the page stays as it was.
\<close>

theorem editCourse_categories_union_witness:
  "getCourse 1 seeded_repo = Some (seed ! 0)
   \<and> p_categories (cats_patch (CArr [''basics'', ''x''])) = Some (CArr [''basics'', ''x''])
   \<and> cat_truthy (CArr [''basics'', ''x''])
   \<and> old_labels (categories (seed ! 0)) = Some [''multimedia'', ''basics'']
   \<and> (\<exists>c. fst (editCourse 1 (cats_patch (CArr [''basics'', ''x''])) seeded_repo) = Inr (Some c)
          \<and> categories c = CArr [''multimedia'', ''basics'', ''x''])
   \<and> getCourse 3 with_number = Some (newCourse numbered 3)
   \<and> old_labels (categories (newCourse numbered 3)) = None
   \<and> editCourse 3 (cats_patch (CArr [''basics'', ''x''])) with_number = (Inl TypeError, with_number)"
proof -
  have h1: "getCourse 1 seeded_repo = Some (seed ! 0)"
    by (simp add: getCourse_def seeded_repo_def seed_def)
  have h2: "p_categories (cats_patch (CArr [''basics'', ''x''])) = Some (CArr [''basics'', ''x''])"
    by (simp add: cats_patch_def)
  have h3: "cat_truthy (CArr [''basics'', ''x''])" by simp
  have l1: "old_labels (categories (seed ! 0)) = Some [''multimedia'', ''basics'']"
    by (simp add: seed_def)
  have l2: "old_labels (categories (newCourse numbered 3)) = None"
    by (simp add: with_number_course)
  have v: "set_spread ([''multimedia'', ''basics''] @ patch_list (CArr [''basics'', ''x'']))
             = [''multimedia'', ''basics'', ''x'']"
    by (simp add: patch_list_def)
  from editCourse_categories_union [OF h1 h2 h3]
  have a: "\<exists>c. fst (editCourse 1 (cats_patch (CArr [''basics'', ''x''])) seeded_repo) = Inr (Some c)
          \<and> categories c = CArr [''multimedia'', ''basics'', ''x'']"
    unfolding l1 option.case v by blast
  from editCourse_categories_union [OF with_number_course(1) h2 h3]
  have b: "editCourse 3 (cats_patch (CArr [''basics'', ''x''])) with_number = (Inl TypeError, with_number)"
    unfolding l2 option.case by blast
  from h1 h2 h3 l1 l2 a b with_number_course(1) show ?thesis
    by (intro conjI)
qed

text \<open>
  A falsy value that is not an array is not treated as the empty set: the patch
  \<^verbatim>\<open>{ categories: null }\<close> skips the guarded block and the merge then stores
  \<^verbatim>\<open>null\<close> as the categories of the course.
\<close>

theorem editCourse_null_categories:
  "map_option categories (getCourse 1 seeded_repo) = Some (CArr [''multimedia'', ''basics''])
   \<and> map_option categories
        (getCourse 1 (snd (editCourse 1 (cats_patch (CPrim JNull)) seeded_repo)))
       = Some (CPrim JNull)"
  by (simp add: editCourse_def findCourseIndex_def edit_categories_def merge_def cats_patch_def
      getCourse_def seeded_repo_def empty_repo_def seed_def saveCourses_def Let_def)

section \<open>Cascading deletion: what is removed\<close>

lemma first_match_split:
  assumes "findIndex p xs \<noteq> - 1"
  shows "\<exists>pre c post. xs = pre @ c # post \<and> p c \<and> (\<forall>x\<in>set pre. \<not> p x)
           \<and> splice1 (nat (findIndex p xs)) xs = pre @ post"
proof -
  define n where "n = nat (findIndex p xs)"
  from findIndex_found [OF assms] have n: "n < length xs" and pn: "p (xs ! n)"
    and before: "\<forall>j < n. \<not> p (xs ! j)"
    by (simp_all add: n_def)
  have "\<forall>x\<in>set (take n xs). \<not> p x"
  proof
    fix x assume "x \<in> set (take n xs)"
    then obtain j where "j < length (take n xs)" "x = take n xs ! j"
      unfolding in_set_conv_nth by blast
    then have "j < n" "x = xs ! j" by simp_all
    with before show "\<not> p x" by simp
  qed
  moreover from n have "xs = take n xs @ xs ! n # drop (Suc n) xs"
    by (rule id_take_nth_drop)
  moreover have "splice1 n xs = take n xs @ drop (Suc n) xs"
    by (simp add: splice1_def)
  ultimately show ?thesis
    unfolding n_def [symmetric] using pn by blast
qed

lemma courseDeletion_done:
  assumes "getCourse i s \<noteq> None"
  shows "courseDeletion i s
           = (True, cascade i (saveCourses
                (s\<lparr>courseList := splice1 (nat (findCourseIndex i s)) (courseList s)\<rparr>)))"
    and "courseDeletion_remote i (HttpOk ()) s
           = (True, cascade i (s\<lparr>requests := requests s @ [DeleteRequest i],
                courseList := splice1 (nat (findCourseIndex i s)) (courseList s)\<rparr>))"
  using assms by (simp_all add: courseDeletion_def courseDeletion_remote_def deleteCourse_cases)

lemma courseDeletion_refused:
  assumes "getCourse i s = None \<or> deleted \<noteq> HttpOk ()"
  shows "\<exists>s1. courseDeletion_remote i deleted s = (False, s1) \<and> courseList s1 = courseList s
          \<and> calls s1 = calls s \<and> progress s1 = progress s \<and> users s1 = users s"
proof (cases "getCourse i s = None")
  case True
  then show ?thesis by (simp add: courseDeletion_remote_def deleteCourse_cases)
next
  case False
  with assms have "deleted \<noteq> HttpOk ()" by simp
  from deleteCourse_remote_refused [OF this False] show ?thesis
    by (simp add: courseDeletion_remote_def)
qed

lemma listCourses_remote_result:
  "fst (listCourses_remote fetched s) = (if courseList s = [] then reloaded fetched else courseList s)"
  by (cases fetched) (simp_all add: listCourses_remote_def fetchCourses_def reloaded_def)

lemma first_course_removed:
  assumes "getCourse i s \<noteq> None"
  shows "\<exists>pre c post. courseList s = pre @ c # post \<and> cid c = i \<and> (\<forall>x\<in>set pre. cid x \<noteq> i)
           \<and> splice1 (nat (findCourseIndex i s)) (courseList s) = pre @ post
           \<and> (distinct (map cid (courseList s)) \<longrightarrow> (\<forall>x\<in>set (pre @ post). cid x \<noteq> i))"
proof -
  from assms have ne: "findIndex (\<lambda>c. cid c = i) (courseList s) \<noteq> - 1"
    by (simp add: getCourse_None_index findCourseIndex_def)
  from first_match_split [OF ne] obtain pre c post where
    sp: "courseList s = pre @ c # post" "cid c = i" "\<forall>x\<in>set pre. cid x \<noteq> i"
        "splice1 (nat (findCourseIndex i s)) (courseList s) = pre @ post"
    unfolding findCourseIndex_def by blast
  have "distinct (map cid (courseList s)) \<longrightarrow> (\<forall>x\<in>set (pre @ post). cid x \<noteq> i)"
    using remaining_ids [OF assms] sp(4) by simp
  with sp show ?thesis by blast
qed

text \<open>
  C4 (amended). \<^verbatim>\<open>courseDeletion(id)\<close> in the local-storage module: when no course has
  the id, the answer is false and nothing at all has changed. Otherwise the answer is
  true; the first course with the id is gone from what \<^verbatim>\<open>listCourses\<close> returns, all
  other courses being listed as before, so that no listed course has the id when the
  ids of the catalog were pairwise different; the collaborators were called in the
  order \<^verbatim>\<open>cleanupCourseData(id)\<close>, \<^verbatim>\<open>listUsers()\<close>, then one \<^verbatim>\<open>updateUser\<close> per
  student with the remaining courses; and afterwards no student has an enrolled course
  whose string form is that of the id, while other users are untouched. The
  remote-backed module answers false, with catalog, users and progress unchanged and
  no collaborator called, when the id is unknown or the backend refuses; when the
  backend accepts it does the same as the local module, and \<^verbatim>\<open>listCourses\<close> then
  returns the remaining courses, or what a reload brings if none remain.
\<close>

theorem courseDeletion_cascade:
  "(getCourse i s = None \<longrightarrow> courseDeletion i s = (False, s))
   \<and> (getCourse i s \<noteq> None \<longrightarrow>
        fst (courseDeletion i s)
        \<and> (\<exists>pre c post. courseList s = pre @ c # post \<and> cid c = i \<and> (\<forall>x\<in>set pre. cid x \<noteq> i)
              \<and> fst (listCourses (snd (courseDeletion i s))) = pre @ post
              \<and> (distinct (map cid (courseList s)) \<longrightarrow>
                    (\<forall>x\<in>set (fst (listCourses (snd (courseDeletion i s)))). cid x \<noteq> i)))
        \<and> calls (snd (courseDeletion i s))
            = calls s @ CleanupCourseData i # ListUsers # update_calls i (users s)
        \<and> progress (snd (courseDeletion i s)) = filter (\<lambda>r. pr_course r \<noteq> i) (progress s)
        \<and> users (snd (courseDeletion i s)) = map (without_course i) (users s)
        \<and> (\<forall>u\<in>set (users (snd (courseDeletion i s))). role u = ''student'' \<longrightarrow>
              JNum i \<notin> set (enrolledCourses u)
              \<and> (\<forall>e\<in>set (enrolledCourses u). String e \<noteq> String (JNum i))))
   \<and> (getCourse i s = None \<or> deleted \<noteq> HttpOk () \<longrightarrow>
        \<not> fst (courseDeletion_remote i deleted s)
        \<and> courseList (snd (courseDeletion_remote i deleted s)) = courseList s
        \<and> calls (snd (courseDeletion_remote i deleted s)) = calls s
        \<and> progress (snd (courseDeletion_remote i deleted s)) = progress s
        \<and> users (snd (courseDeletion_remote i deleted s)) = users s)
   \<and> (getCourse i s \<noteq> None \<and> deleted = HttpOk () \<longrightarrow>
        fst (courseDeletion_remote i deleted s)
        \<and> (\<exists>pre c post. courseList s = pre @ c # post \<and> cid c = i \<and> (\<forall>x\<in>set pre. cid x \<noteq> i)
              \<and> courseList (snd (courseDeletion_remote i deleted s)) = pre @ post
              \<and> fst (listCourses_remote fetched (snd (courseDeletion_remote i deleted s)))
                  = (if pre @ post = [] then reloaded fetched else pre @ post)
              \<and> (distinct (map cid (courseList s)) \<and> pre @ post \<noteq> [] \<longrightarrow>
                    (\<forall>x\<in>set (fst (listCourses_remote fetched
                                      (snd (courseDeletion_remote i deleted s)))). cid x \<noteq> i)))
        \<and> calls (snd (courseDeletion_remote i deleted s))
            = calls s @ CleanupCourseData i # ListUsers # update_calls i (users s)
        \<and> progress (snd (courseDeletion_remote i deleted s))
            = filter (\<lambda>r. pr_course r \<noteq> i) (progress s)
        \<and> users (snd (courseDeletion_remote i deleted s)) = map (without_course i) (users s)
        \<and> (\<forall>u\<in>set (users (snd (courseDeletion_remote i deleted s))). role u = ''student'' \<longrightarrow>
              JNum i \<notin> set (enrolledCourses u)
              \<and> (\<forall>e\<in>set (enrolledCourses u). String e \<noteq> String (JNum i))))"
proof (intro conjI impI)
  assume "getCourse i s = None"
  then show "courseDeletion i s = (False, s)"
    by (simp add: courseDeletion_def deleteCourse_cases)
next
  assume f: "getCourse i s \<noteq> None"
  note d = courseDeletion_done(1) [OF f]
  show "fst (courseDeletion i s)" by (simp add: d)
  from first_course_removed [OF f] obtain pre c post where
    sp: "courseList s = pre @ c # post" "cid c = i" "\<forall>x\<in>set pre. cid x \<noteq> i"
        "splice1 (nat (findCourseIndex i s)) (courseList s) = pre @ post"
        "distinct (map cid (courseList s)) \<longrightarrow> (\<forall>x\<in>set (pre @ post). cid x \<noteq> i)"
    by blast
  have li: "fst (listCourses (snd (courseDeletion i s))) = pre @ post"
    by (simp add: d listCourses_def sp(4))
  from sp(1-3,5) li
  show "\<exists>pre c post. courseList s = pre @ c # post \<and> cid c = i \<and> (\<forall>x\<in>set pre. cid x \<noteq> i)
              \<and> fst (listCourses (snd (courseDeletion i s))) = pre @ post
              \<and> (distinct (map cid (courseList s)) \<longrightarrow>
                    (\<forall>x\<in>set (fst (listCourses (snd (courseDeletion i s)))). cid x \<noteq> i))"
    unfolding li by blast
  show "calls (snd (courseDeletion i s))
            = calls s @ CleanupCourseData i # ListUsers # update_calls i (users s)"
    by (simp add: d cascade_effect)
  show "progress (snd (courseDeletion i s)) = filter (\<lambda>r. pr_course r \<noteq> i) (progress s)"
    by (simp add: d cascade_effect)
  show u: "users (snd (courseDeletion i s)) = map (without_course i) (users s)"
    by (simp add: d cascade_effect)
  show "\<forall>u\<in>set (users (snd (courseDeletion i s))). role u = ''student'' \<longrightarrow>
              JNum i \<notin> set (enrolledCourses u)
              \<and> (\<forall>e\<in>set (enrolledCourses u). String e \<noteq> String (JNum i))"
    unfolding u using without_course_clean [of _ i "users s"] by blast
next
  assume a: "getCourse i s = None \<or> deleted \<noteq> HttpOk ()"
  from courseDeletion_refused [OF a] obtain s1 where
    s1: "courseDeletion_remote i deleted s = (False, s1)"
    "courseList s1 = courseList s" "calls s1 = calls s" "progress s1 = progress s"
    "users s1 = users s"
    by blast
  then show "\<not> fst (courseDeletion_remote i deleted s)"
    and "courseList (snd (courseDeletion_remote i deleted s)) = courseList s"
    and "calls (snd (courseDeletion_remote i deleted s)) = calls s"
    and "progress (snd (courseDeletion_remote i deleted s)) = progress s"
    and "users (snd (courseDeletion_remote i deleted s)) = users s"
    by simp_all
next
  assume "getCourse i s \<noteq> None \<and> deleted = HttpOk ()"
  then have f: "getCourse i s \<noteq> None" and k: "deleted = HttpOk ()" by simp_all
  note d = courseDeletion_done(2) [OF f, folded k]
  show "fst (courseDeletion_remote i deleted s)" by (simp add: d)
  from first_course_removed [OF f] obtain pre c post where
    sp: "courseList s = pre @ c # post" "cid c = i" "\<forall>x\<in>set pre. cid x \<noteq> i"
        "splice1 (nat (findCourseIndex i s)) (courseList s) = pre @ post"
        "distinct (map cid (courseList s)) \<longrightarrow> (\<forall>x\<in>set (pre @ post). cid x \<noteq> i)"
    by blast
  have cl: "courseList (snd (courseDeletion_remote i deleted s)) = pre @ post"
    by (simp add: d sp(4))
  have li: "fst (listCourses_remote fetched (snd (courseDeletion_remote i deleted s)))
                  = (if pre @ post = [] then reloaded fetched else pre @ post)"
    by (simp only: listCourses_remote_result cl)
  have ab: "distinct (map cid (courseList s)) \<and> pre @ post \<noteq> [] \<longrightarrow>
                    (\<forall>x\<in>set (fst (listCourses_remote fetched
                                      (snd (courseDeletion_remote i deleted s)))). cid x \<noteq> i)"
    using sp(5) unfolding li by simp
  from sp(1-3) cl li ab
  show "\<exists>pre c post. courseList s = pre @ c # post \<and> cid c = i \<and> (\<forall>x\<in>set pre. cid x \<noteq> i)
              \<and> courseList (snd (courseDeletion_remote i deleted s)) = pre @ post
              \<and> fst (listCourses_remote fetched (snd (courseDeletion_remote i deleted s)))
                  = (if pre @ post = [] then reloaded fetched else pre @ post)
              \<and> (distinct (map cid (courseList s)) \<and> pre @ post \<noteq> [] \<longrightarrow>
                    (\<forall>x\<in>set (fst (listCourses_remote fetched
                                      (snd (courseDeletion_remote i deleted s)))). cid x \<noteq> i))"
    by blast
  show "calls (snd (courseDeletion_remote i deleted s))
            = calls s @ CleanupCourseData i # ListUsers # update_calls i (users s)"
    by (simp add: d cascade_effect)
  show "progress (snd (courseDeletion_remote i deleted s))
            = filter (\<lambda>r. pr_course r \<noteq> i) (progress s)"
    by (simp add: d cascade_effect)
  show u: "users (snd (courseDeletion_remote i deleted s)) = map (without_course i) (users s)"
    by (simp add: d cascade_effect)
  show "\<forall>u\<in>set (users (snd (courseDeletion_remote i deleted s))). role u = ''student'' \<longrightarrow>
              JNum i \<notin> set (enrolledCourses u)
              \<and> (\<forall>e\<in>set (enrolledCourses u). String e \<noteq> String (JNum i))"
    unfolding u using without_course_clean [of _ i "users s"] by blast
qed

lemma digits_small: "n < 10 \<Longrightarrow> digits n = [digit_char n]"
  by (subst digits.simps) simp

text \<open>Deleting the unknown course 9 and the course 1 on the example page.\<close>

theorem courseDeletion_cascade_witness:
  "getCourse 9 campus = None
   \<and> courseDeletion 9 campus = (False, campus)
   \<and> getCourse 1 campus \<noteq> None
   \<and> distinct (map cid (courseList campus))
   \<and> fst (courseDeletion 1 campus)
   \<and> list_all (\<lambda>x. cid x \<noteq> 1) (fst (listCourses (snd (courseDeletion 1 campus))))
   \<and> map cid (fst (listCourses (snd (courseDeletion 1 campus)))) = [2]
   \<and> users (snd (courseDeletion 1 campus))
       = [\<lparr>role = ''student'', enrolledCourses = [JNum 2]\<rparr>,
          \<lparr>role = ''admin'', enrolledCourses = [JNum 1]\<rparr>]
   \<and> calls (snd (courseDeletion 1 campus))
       = [CleanupCourseData 1, ListUsers, UpdateUser 0 [JNum 2]]
   \<and> progress (snd (courseDeletion 1 campus)) = [\<lparr>pr_user = JNum 7, pr_course = 2\<rparr>]
   \<and> HttpError \<noteq> HttpOk ()
   \<and> users (snd (courseDeletion_remote 1 HttpError campus)) = users campus
   \<and> users (snd (courseDeletion_remote 1 (HttpOk ()) campus))
       = [\<lparr>role = ''student'', enrolledCourses = [JNum 2]\<rparr>,
          \<lparr>role = ''admin'', enrolledCourses = [JNum 1]\<rparr>]"
proof -
  have g9: "getCourse 9 campus = None"
    by (simp add: campus_def getCourse_def seeded_repo_def seed_def)
  have g1: "getCourse 1 campus \<noteq> None"
    by (simp add: campus_def getCourse_def seeded_repo_def seed_def)
  have dc: "distinct (map cid (courseList campus))"
    by (simp add: campus_def seeded_repo_def seed_def)
  have cl: "map cid (fst (listCourses (snd (courseDeletion 1 campus)))) = [2]"
    by (simp add: courseDeletion_done(1) [OF g1] listCourses_def)
       (simp add: campus_def findCourseIndex_def splice1_def seeded_repo_def seed_def)
  have us: "map (without_course 1) (users campus)
              = [\<lparr>role = ''student'', enrolledCourses = [JNum 2]\<rparr>,
                 \<lparr>role = ''admin'', enrolledCourses = [JNum 1]\<rparr>]"
    by (simp add: campus_def without_course_def digits_small digit_char_def)
  have ca: "calls campus @ CleanupCourseData 1 # ListUsers # update_calls 1 (users campus)
              = [CleanupCourseData 1, ListUsers, UpdateUser 0 [JNum 2]]"
    by (simp add: campus_def update_calls_def digits_small digit_char_def
        seeded_repo_def empty_repo_def)
  have pr: "filter (\<lambda>r. pr_course r \<noteq> 1) (progress campus) = [\<lparr>pr_user = JNum 7, pr_course = 2\<rparr>]"
    by (simp add: campus_def)
  have ne: "(HttpError :: unit response) \<noteq> HttpOk ()" by simp
  from courseDeletion_cascade [where i = 9 and s = campus and deleted = "HttpOk ()"] g9
  have a: "courseDeletion 9 campus = (False, campus)" by simp
  from courseDeletion_cascade [where i = 1 and s = campus and deleted = "HttpOk ()"] g1 dc
  have b: "fst (courseDeletion 1 campus)"
    "\<forall>x\<in>set (fst (listCourses (snd (courseDeletion 1 campus)))). cid x \<noteq> 1"
    "users (snd (courseDeletion 1 campus)) = map (without_course 1) (users campus)"
    "calls (snd (courseDeletion 1 campus))
       = calls campus @ CleanupCourseData 1 # ListUsers # update_calls 1 (users campus)"
    "progress (snd (courseDeletion 1 campus)) = filter (\<lambda>r. pr_course r \<noteq> 1) (progress campus)"
    "users (snd (courseDeletion_remote 1 (HttpOk ()) campus)) = map (without_course 1) (users campus)"
    by blast+
  from b(2) have la: "list_all (\<lambda>x. cid x \<noteq> 1) (fst (listCourses (snd (courseDeletion 1 campus))))"
    by (simp add: list_all_iff)
  from courseDeletion_cascade [where i = 1 and s = campus and deleted = HttpError] ne
  have c: "users (snd (courseDeletion_remote 1 HttpError campus)) = users campus" by blast
  from g9 g1 dc a b(1) la cl b(3-6) c ne show ?thesis
    unfolding us ca pr by (intro conjI)
qed

lemma twin_ids_catalog:
  "courseList twin_ids = [seed ! 0, (seed ! 1)\<lparr>cid := 1\<rparr>]"
  by (simp add: twin_ids_def editCourse_def findCourseIndex_def edit_categories_def merge_def
      id_patch_def seeded_repo_def empty_repo_def seed_def saveCourses_def Let_def)

text \<open>
  After \<^verbatim>\<open>editCourse(2, { id: 1 })\<close> two courses have the id 1; \<^verbatim>\<open>courseDeletion(1)\<close>
  returns true and removes the first of them, and a course with id 1 is still listed.
\<close>

theorem courseDeletion_leaves_twin:
  "map cid (fst (listCourses twin_ids)) = [1, 1]
   \<and> fst (courseDeletion 1 twin_ids)
   \<and> map cid (fst (listCourses (snd (courseDeletion 1 twin_ids)))) = [1]
   \<and> map title (fst (listCourses (snd (courseDeletion 1 twin_ids)))) = [Some ''Graphic Design'']"
proof -
  have g: "getCourse 1 twin_ids \<noteq> None"
    by (simp add: getCourse_def twin_ids_catalog seed_def)
  have i: "findCourseIndex 1 twin_ids = 0"
    by (simp add: findCourseIndex_def twin_ids_catalog seed_def)
  show ?thesis
    by (simp add: courseDeletion_done(1) [OF g] listCourses_def i splice1_def twin_ids_catalog)
       (simp add: seed_def)
qed

section \<open>Cascading deletion: which references are removed\<close>

lemma users_after_courseDeletion:
  assumes "getCourse i s \<noteq> None"
  shows "users (snd (courseDeletion i s)) = map (without_course i) (users s)"
    and "users (snd (courseDeletion_remote i (HttpOk ()) s)) = map (without_course i) (users s)"
    and "calls (snd (courseDeletion i s))
           = calls s @ CleanupCourseData i # ListUsers # update_calls i (users s)"
    and "calls (snd (courseDeletion_remote i (HttpOk ()) s))
           = calls s @ CleanupCourseData i # ListUsers # update_calls i (users s)"
  by (simp_all add: courseDeletion_done [OF assms] cascade_effect)

lemma update_call_made:
  assumes "r < length us" and "role (us ! r) = ''student''"
  shows "UpdateUser r (filter (\<lambda>e. String e \<noteq> String (JNum i)) (enrolledCourses (us ! r)))
           \<in> set (update_calls i us)"
proof -
  from assms(1) have "(r, us ! r) \<in> set (enumerate 0 us)"
    by (simp add: in_set_enumerate_eq)
  with assms(2) have "(r, us ! r) \<in> set (filter (\<lambda>(r, u). role u = ''student'') (enumerate 0 us))"
    by simp
  then have "(\<lambda>(r, u). UpdateUser r
            (filter (\<lambda>e. String e \<noteq> String (JNum i)) (enrolledCourses u))) (r, us ! r)
           \<in> set (update_calls i us)"
    unfolding update_calls_def set_map by (rule imageI)
  then show ?thesis by simp
qed

text \<open>
  C9. After a successful \<^verbatim>\<open>courseDeletion(id)\<close>, in both modules, every user with role
  student has as enrolled courses the former ones, in order, without the entries whose
  string form is the string form of the id, and \<^verbatim>\<open>updateUser\<close> was called for that
  user with this list; every other user is as before. So an entry is removed exactly
  when its string form equals that of the id: the number itself and the string of its
  decimal digits are removed (the string \<^verbatim>\<open>"5"\<close> when course 5 is deleted), while the
  number and the decimal string of any other id stay whenever they were there.
\<close>

theorem courseDeletion_removes_by_string_form:
  assumes "getCourse i s \<noteq> None"
  shows "users (snd (courseDeletion_remote i (HttpOk ()) s)) = users (snd (courseDeletion i s))
     \<and> calls (snd (courseDeletion_remote i (HttpOk ()) s)) = calls (snd (courseDeletion i s))
     \<and> length (users (snd (courseDeletion i s))) = length (users s)
     \<and> (\<forall>r < length (users s). role (users s ! r) \<noteq> ''student'' \<longrightarrow>
           users (snd (courseDeletion i s)) ! r = users s ! r)
     \<and> (\<forall>r < length (users s). role (users s ! r) = ''student'' \<longrightarrow>
           role (users (snd (courseDeletion i s)) ! r) = ''student''
           \<and> enrolledCourses (users (snd (courseDeletion i s)) ! r)
               = filter (\<lambda>e. String e \<noteq> String (JNum i)) (enrolledCourses (users s ! r))
           \<and> UpdateUser r (enrolledCourses (users (snd (courseDeletion i s)) ! r))
               \<in> set (calls (snd (courseDeletion i s)))
           \<and> (\<forall>e. e \<in> set (enrolledCourses (users (snd (courseDeletion i s)) ! r))
                  \<longleftrightarrow> e \<in> set (enrolledCourses (users s ! r)) \<and> String e \<noteq> String (JNum i))
           \<and> JNum i \<notin> set (enrolledCourses (users (snd (courseDeletion i s)) ! r))
           \<and> JStr (String (JNum i)) \<notin> set (enrolledCourses (users (snd (courseDeletion i s)) ! r))
           \<and> (i = 5 \<longrightarrow> JStr ''5'' \<notin> set (enrolledCourses (users (snd (courseDeletion i s)) ! r)))
           \<and> (\<forall>m. m \<noteq> i \<longrightarrow>
                 (JNum m \<in> set (enrolledCourses (users (snd (courseDeletion i s)) ! r))
                    \<longleftrightarrow> JNum m \<in> set (enrolledCourses (users s ! r)))
                 \<and> (JStr (String (JNum m)) \<in> set (enrolledCourses (users (snd (courseDeletion i s)) ! r))
                    \<longleftrightarrow> JStr (String (JNum m)) \<in> set (enrolledCourses (users s ! r)))))"
proof -
  let ?s' = "snd (courseDeletion i s)"
  note ua = users_after_courseDeletion [OF assms]
  have same: "users (snd (courseDeletion_remote i (HttpOk ()) s)) = users ?s'"
    "calls (snd (courseDeletion_remote i (HttpOk ()) s)) = calls ?s'"
    by (simp_all add: ua)
  have len: "length (users ?s') = length (users s)"
    by (simp add: ua)
  have other: "\<forall>r < length (users s). role (users s ! r) \<noteq> ''student'' \<longrightarrow>
           users ?s' ! r = users s ! r"
    by (simp add: ua without_course_def)
  have stud: "\<forall>r < length (users s). role (users s ! r) = ''student'' \<longrightarrow>
           role (users ?s' ! r) = ''student''
           \<and> enrolledCourses (users ?s' ! r)
               = filter (\<lambda>e. String e \<noteq> String (JNum i)) (enrolledCourses (users s ! r))
           \<and> UpdateUser r (enrolledCourses (users ?s' ! r)) \<in> set (calls ?s')
           \<and> (\<forall>e. e \<in> set (enrolledCourses (users ?s' ! r))
                  \<longleftrightarrow> e \<in> set (enrolledCourses (users s ! r)) \<and> String e \<noteq> String (JNum i))
           \<and> JNum i \<notin> set (enrolledCourses (users ?s' ! r))
           \<and> JStr (String (JNum i)) \<notin> set (enrolledCourses (users ?s' ! r))
           \<and> (i = 5 \<longrightarrow> JStr ''5'' \<notin> set (enrolledCourses (users ?s' ! r)))
           \<and> (\<forall>m. m \<noteq> i \<longrightarrow>
                 (JNum m \<in> set (enrolledCourses (users ?s' ! r))
                    \<longleftrightarrow> JNum m \<in> set (enrolledCourses (users s ! r)))
                 \<and> (JStr (String (JNum m)) \<in> set (enrolledCourses (users ?s' ! r))
                    \<longleftrightarrow> JStr (String (JNum m)) \<in> set (enrolledCourses (users s ! r))))"
  proof (intro allI impI)
    fix r assume r: "r < length (users s)" and st: "role (users s ! r) = ''student''"
    let ?before = "enrolledCourses (users s ! r)"
    let ?after = "enrolledCourses (users ?s' ! r)"
    from r st have ro: "role (users ?s' ! r) = ''student''"
      by (simp add: ua without_course_def)
    from r st have af: "?after = filter (\<lambda>e. String e \<noteq> String (JNum i)) ?before"
      by (simp add: ua without_course_def)
    have call: "UpdateUser r ?after \<in> set (calls ?s')"
      unfolding af using update_call_made [OF r st, of i] by (simp add: ua)
    have mem: "\<forall>e. e \<in> set ?after \<longleftrightarrow> e \<in> set ?before \<and> String e \<noteq> String (JNum i)"
      by (simp add: af)
    have own: "JNum i \<notin> set ?after" "JStr (String (JNum i)) \<notin> set ?after"
      by (simp_all add: af)
    have five: "i = 5 \<longrightarrow> JStr ''5'' \<notin> set ?after"
      using own(2) by (auto simp: digits_5)
    have keep: "\<forall>m. m \<noteq> i \<longrightarrow>
                 (JNum m \<in> set ?after \<longleftrightarrow> JNum m \<in> set ?before)
                 \<and> (JStr (String (JNum m)) \<in> set ?after \<longleftrightarrow> JStr (String (JNum m)) \<in> set ?before)"
    proof (intro allI impI)
      fix m :: int assume "m \<noteq> i"
      then have "String (JNum m) \<noteq> String (JNum i)"
        by (simp only: String_JNum_inject not_False_eq_True)
      then show "(JNum m \<in> set ?after \<longleftrightarrow> JNum m \<in> set ?before)
                 \<and> (JStr (String (JNum m)) \<in> set ?after \<longleftrightarrow> JStr (String (JNum m)) \<in> set ?before)"
        unfolding af by simp
    qed
    from ro af call mem own five keep
    show "role (users ?s' ! r) = ''student''
           \<and> ?after = filter (\<lambda>e. String e \<noteq> String (JNum i)) ?before
           \<and> UpdateUser r ?after \<in> set (calls ?s')
           \<and> (\<forall>e. e \<in> set ?after \<longleftrightarrow> e \<in> set ?before \<and> String e \<noteq> String (JNum i))
           \<and> JNum i \<notin> set ?after
           \<and> JStr (String (JNum i)) \<notin> set ?after
           \<and> (i = 5 \<longrightarrow> JStr ''5'' \<notin> set ?after)
           \<and> (\<forall>m. m \<noteq> i \<longrightarrow>
                 (JNum m \<in> set ?after \<longleftrightarrow> JNum m \<in> set ?before)
                 \<and> (JStr (String (JNum m)) \<in> set ?after \<longleftrightarrow> JStr (String (JNum m)) \<in> set ?before))"
      by (intro conjI)
  qed
  from same len other stud show ?thesis
    by (intro conjI)
qed

text \<open>
  Deleting course 5 on the example page leaves the student with 2, \<^verbatim>\<open>"15"\<close> and
  \<^verbatim>\<open>"05"\<close>, and the teacher with the reference to course 5.
\<close>

theorem courseDeletion_removes_by_string_form_witness:
  "getCourse 5 campus5 \<noteq> None
   \<and> (0::nat) < length (users campus5) \<and> role (users campus5 ! 0) = ''student''
   \<and> enrolledCourses (users campus5 ! 0) = [JStr ''5'', JNum 5, JNum 2, JStr ''15'', JStr ''05'']
   \<and> enrolledCourses (users (snd (courseDeletion 5 campus5)) ! 0) = [JNum 2, JStr ''15'', JStr ''05'']
   \<and> enrolledCourses (users (snd (courseDeletion_remote 5 (HttpOk ()) campus5)) ! 0)
       = [JNum 2, JStr ''15'', JStr ''05'']
   \<and> UpdateUser 0 [JNum 2, JStr ''15'', JStr ''05''] \<in> set (calls (snd (courseDeletion 5 campus5)))
   \<and> (1::nat) < length (users campus5) \<and> role (users campus5 ! 1) \<noteq> ''student''
   \<and> users (snd (courseDeletion 5 campus5)) ! 1 = \<lparr>role = ''teacher'', enrolledCourses = [JNum 5]\<rparr>"
proof -
  have g: "getCourse 5 campus5 \<noteq> None"
    by (simp add: campus5_def getCourse_def seed_def)
  have u0: "(0::nat) < length (users campus5)" "role (users campus5 ! 0) = ''student''"
    "enrolledCourses (users campus5 ! 0) = [JStr ''5'', JNum 5, JNum 2, JStr ''15'', JStr ''05'']"
    by (simp_all add: campus5_def)
  have u1: "(1::nat) < length (users campus5)" "role (users campus5 ! 1) \<noteq> ''student''"
    "users campus5 ! 1 = \<lparr>role = ''teacher'', enrolledCourses = [JNum 5]\<rparr>"
    by (simp_all add: campus5_def)
  have f: "filter (\<lambda>e. String e \<noteq> String (JNum 5))
             [JStr ''5'', JNum 5, JNum 2, JStr ''15'', JStr ''05''] = [JNum 2, JStr ''15'', JStr ''05'']"
    by (simp add: digits_small digit_char_def)
  note t = courseDeletion_removes_by_string_form [OF g]
  from t u0(1,2) have a: "enrolledCourses (users (snd (courseDeletion 5 campus5)) ! 0)
      = filter (\<lambda>e. String e \<noteq> String (JNum 5)) (enrolledCourses (users campus5 ! 0))"
    by blast
  from t u0(1,2) have c: "UpdateUser 0 (enrolledCourses (users (snd (courseDeletion 5 campus5)) ! 0))
      \<in> set (calls (snd (courseDeletion 5 campus5)))"
    by blast
  from t have r: "users (snd (courseDeletion_remote 5 (HttpOk ()) campus5))
      = users (snd (courseDeletion 5 campus5))"
    by blast
  from t u1(1,2) have o: "users (snd (courseDeletion 5 campus5)) ! 1 = users campus5 ! 1"
    by blast
  from a have a': "enrolledCourses (users (snd (courseDeletion 5 campus5)) ! 0)
      = [JNum 2, JStr ''15'', JStr ''05'']"
    by (simp only: u0(3) f)
  from c have c': "UpdateUser 0 [JNum 2, JStr ''15'', JStr ''05'']
      \<in> set (calls (snd (courseDeletion 5 campus5)))"
    by (simp only: a')
  from g u0 u1(1,2) a' c' show ?thesis
    by (simp only: r o u1(3) simp_thms)
qed

section \<open>Identifiers of created courses: creation and deletion\<close>

lemma distinct_map_splice1:
  assumes "distinct (map f xs)"
  shows "distinct (map f (splice1 n xs))"
proof -
  let ?ys = "map f xs"
  have "map f (splice1 n xs) = take n ?ys @ drop (Suc n) ?ys"
    by (simp add: splice1_def take_map drop_map)
  moreover from assms have "set (take n ?ys) \<inter> set (drop (Suc n) ?ys) = {}"
    by (rule set_take_disj_set_drop_if_distinct) simp
  ultimately show ?thesis using assms by simp
qed

lemma distinct_ids_createCourse:
  assumes "distinct (map cid (courseList s))"
  shows "distinct (map cid (courseList (snd (createCourse arg s))))"
proof (cases arg)
  case None
  with assms show ?thesis by (simp add: courseList_createCourse)
next
  case (Some p)
  show ?thesis
  proof (cases "has_title p")
    case True
    have "next_id (courseList s) \<notin> cid ` set (courseList s)"
      using next_id_greater [of _ "courseList s"] by fastforce
    with assms Some True show ?thesis by (simp add: courseList_createCourse)
  next
    case False
    with assms Some show ?thesis by (simp add: courseList_createCourse)
  qed
qed

lemma distinct_ids_deleteCourse:
  assumes "distinct (map cid (courseList s))"
  shows "distinct (map cid (courseList (snd (deleteCourse i s))))"
  using assms by (simp add: courseList_deleteCourse distinct_map_splice1)

lemma distinct_ids_run:
  assumes "list_all create_or_delete ops" and "distinct (map cid (courseList s))"
  shows "distinct (map cid (courseList (fold perform ops s)))"
  using assms
proof (induction ops arbitrary: s)
  case Nil
  then show ?case by simp
next
  case (Cons a ops)
  from Cons.prems have a: "create_or_delete a" and r: "list_all create_or_delete ops" by simp_all
  have "distinct (map cid (courseList (perform a s)))"
  proof (cases a)
    case (OpCreate arg)
    with Cons.prems(2) show ?thesis by (simp add: distinct_ids_createCourse)
  next
    case (OpDelete i)
    with Cons.prems(2) show ?thesis by (simp add: distinct_ids_deleteCourse)
  next
    case (OpCourseDeletion courseId)
    with Cons.prems(2) show ?thesis
      by (simp add: courseList_courseDeletion distinct_ids_deleteCourse)
  qed (use a in simp_all)
  from Cons.IH [OF r this] show ?case by simp
qed

lemma set_splice1:
  assumes "n < length xs" and "x \<in> set xs" and "x \<noteq> xs ! n"
  shows "x \<in> set (splice1 n xs)"
proof -
  have "take n xs @ xs ! n # drop (Suc n) xs = xs"
    by (rule id_take_nth_drop [OF assms(1), symmetric])
  then have "set xs = set (take n xs @ xs ! n # drop (Suc n) xs)"
    by (rule arg_cong [where f = set, symmetric])
  with assms(2,3) have "x \<in> set (take n xs) \<or> x \<in> set (drop (Suc n) xs)"
    by simp
  then show ?thesis by (simp add: splice1_def)
qed

lemma next_id_after_deleting_largest:
  assumes "getCourse i s \<noteq> None" and "0 < i" and "distinct (map cid (courseList s))"
    and "\<forall>c\<in>set (courseList s). cid c \<le> i"
  defines "rest \<equiv> splice1 (nat (findCourseIndex i s)) (courseList s)"
  shows "next_id rest \<le> i"
    and "(\<exists>c0\<in>set (courseList s). cid c0 = i - 1) \<longrightarrow> rest \<noteq> [] \<and> next_id rest = i"
proof -
  have ne: "\<forall>c\<in>set rest. cid c \<noteq> i"
    unfolding rest_def by (rule remaining_ids [OF assms(1,3)])
  have sub: "set rest \<subseteq> set (courseList s)"
    unfolding rest_def splice1_def by (auto dest: in_set_takeD in_set_dropD)
  with ne assms(4) have lt: "\<forall>c\<in>set rest. cid c < i" by fastforce
  show le: "next_id rest \<le> i"
  proof (cases "rest = []")
    case True
    with assms(2) show ?thesis by (simp add: next_id_def)
  next
    case False
    then have "Max (cid ` set rest) \<in> cid ` set rest" by (intro Max_in) simp_all
    then obtain c where "c \<in> set rest" and "Max (cid ` set rest) = cid c" by (rule imageE)
    with lt have "Max (cid ` set rest) < i" by (simp only:)
    then have "Max (cid ` set rest) + 1 \<le> i" by linarith
    with False show ?thesis by (simp only: next_id_def if_False)
  qed
  show "(\<exists>c0\<in>set (courseList s). cid c0 = i - 1) \<longrightarrow> rest \<noteq> [] \<and> next_id rest = i"
  proof
    assume "\<exists>c0\<in>set (courseList s). cid c0 = i - 1"
    then obtain c0 where c0: "c0 \<in> set (courseList s)" "cid c0 = i - 1" by blast
    from getCourse_None_index assms(1) have fi: "findCourseIndex i s \<noteq> - 1" by simp
    from findIndex_found [OF fi [unfolded findCourseIndex_def]]
    have n: "nat (findCourseIndex i s) < length (courseList s)"
      and idn: "cid (courseList s ! nat (findCourseIndex i s)) = i"
      by (simp_all add: findCourseIndex_def)
    from c0(2) idn have "c0 \<noteq> courseList s ! nat (findCourseIndex i s)" by auto
    from set_splice1 [OF n c0(1) this] have m: "c0 \<in> set rest" by (simp add: rest_def)
    then have nonempty: "rest \<noteq> []" by auto
    from m have "cid c0 \<le> Max (cid ` set rest)" by simp
    with c0(2) have "i \<le> Max (cid ` set rest) + 1" by linarith
    with nonempty have "i \<le> next_id rest" by (simp only: next_id_def if_False)
    with le nonempty show "rest \<noteq> [] \<and> next_id rest = i" by simp
  qed
qed

lemma create_after_delete:
  assumes "getCourse i s \<noteq> None" and "has_title p"
  shows "fst (deleteCourse i s)"
    and "courseList (snd (deleteCourse i s)) = splice1 (nat (findCourseIndex i s)) (courseList s)"
    and "fst (createCourse (Some p) (snd (deleteCourse i s)))
           = Some (newCourse p (next_id (splice1 (nat (findCourseIndex i s)) (courseList s))))"
    and "fst (deleteCourse_remote i (HttpOk ()) s)"
    and "courseList (snd (deleteCourse_remote i (HttpOk ()) s))
           = splice1 (nat (findCourseIndex i s)) (courseList s)"
    and "fst (createCourse_remote (Some p) fetched (HttpOk ()) (snd (deleteCourse_remote i (HttpOk ()) s)))
           = Some (newCourse p (next_id (after_load fetched
                (splice1 (nat (findCourseIndex i s)) (courseList s)))))"
  using assms
  by (simp_all add: deleteCourse_cases createCourse_titled createCourse_remote_ok)

text \<open>
  C1 (amended). In a run of \<^verbatim>\<open>createCourse\<close> calls whose arguments all have a title,
  with no other operation in between, every call succeeds and appends its course; the
  id of each created course is the largest id of the catalog at that moment plus one,
  or 1 on the empty catalog; the ids assigned are strictly increasing and larger than
  every id that was in the catalog, so pairwise different ids stay pairwise different.
  This holds in the local-storage module, and in the remote-backed module when the
  backend accepts every write, there for the catalog as it is after the load that an
  empty catalog triggers. Deleted ids are not remembered: when the largest id is
  positive, the ids are pairwise different and the course with the largest id is
  deleted, the next id assigned is the largest remaining id plus one (or 1 when nothing
  remains), which is not larger than the deleted id (in the remote-backed module
  provided a course remains, an emptied catalog being reloaded first), and it is the
  deleted id itself when a course with the id just below it is in the catalog. In the
  local-storage module creations and deletions in any order keep pairwise different
  ids pairwise different.
\<close>

theorem createCourse_ids:
  assumes "list_all has_title ps" and "list_all (\<lambda>(p, fetched). has_title p) qs"
    and "list_all create_or_delete ops" and "has_title p"
  shows "(\<exists>cs. fst (createCourses ps s) = map Some cs \<and> length cs = length ps
            \<and> courseList (snd (createCourses ps s)) = courseList s @ cs
            \<and> (\<forall>k < length cs. cid (cs ! k) = next_id (courseList s @ take k cs))
            \<and> sorted_wrt (<) (map cid cs)
            \<and> (\<forall>c\<in>set cs. \<forall>c0\<in>set (courseList s). cid c0 < cid c)
            \<and> (distinct (map cid (courseList s)) \<longrightarrow> distinct (map cid (courseList s @ cs))))
       \<and> (\<exists>cs. fst (createCourses_remote qs s) = map Some cs \<and> length cs = length qs
            \<and> courseList (snd (createCourses_remote qs s)) = first_load qs (courseList s) @ cs
            \<and> (\<forall>k < length cs. cid (cs ! k) = next_id (first_load qs (courseList s) @ take k cs))
            \<and> sorted_wrt (<) (map cid cs)
            \<and> (\<forall>c\<in>set cs. \<forall>c0\<in>set (first_load qs (courseList s)). cid c0 < cid c)
            \<and> (distinct (map cid (first_load qs (courseList s)))
                 \<longrightarrow> distinct (map cid (first_load qs (courseList s) @ cs))))
       \<and> (distinct (map cid (courseList s))
            \<longrightarrow> distinct (map cid (courseList (fold perform ops s))))
       \<and> (getCourse i s \<noteq> None \<and> 0 < i \<and> distinct (map cid (courseList s))
              \<and> (\<forall>c\<in>set (courseList s). cid c \<le> i) \<longrightarrow>
            fst (deleteCourse i s)
            \<and> (\<exists>c. fst (createCourse (Some p) (snd (deleteCourse i s))) = Some c
                  \<and> cid c = next_id (courseList (snd (deleteCourse i s)))
                  \<and> cid c \<le> i
                  \<and> ((\<exists>c0\<in>set (courseList s). cid c0 = i - 1) \<longrightarrow> cid c = i))
            \<and> fst (deleteCourse_remote i (HttpOk ()) s)
            \<and> (\<exists>c. fst (createCourse_remote (Some p) fetched (HttpOk ())
                          (snd (deleteCourse_remote i (HttpOk ()) s))) = Some c
                  \<and> cid c = next_id (after_load fetched
                                      (courseList (snd (deleteCourse_remote i (HttpOk ()) s))))
                  \<and> (courseList (snd (deleteCourse_remote i (HttpOk ()) s)) \<noteq> [] \<longrightarrow> cid c \<le> i)
                  \<and> ((\<exists>c0\<in>set (courseList s). cid c0 = i - 1) \<longrightarrow> cid c = i)))"
proof (intro conjI impI)
  from assms(1) have t: "\<forall>p\<in>set ps. has_title p" by (simp add: list_all_iff)
  obtain rs s' where run: "createCourses ps s = (rs, s')" by (cases "createCourses ps s")
  from createCourses_run [OF t run] obtain cs where
    cs: "rs = map Some cs" "length cs = length ps" "courseList s' = courseList s @ cs"
        "\<forall>k < length cs. cid (cs ! k) = next_id (courseList s @ take k cs)"
    by blast
  from ids_increasing [OF cs(4)] have
    inc: "sorted_wrt (<) (map cid cs)" and gt: "\<forall>c\<in>set cs. \<forall>c0\<in>set (courseList s). cid c0 < cid c"
    by simp_all
  from inc have d: "distinct (map cid cs)"
    by (simp add: strict_sorted_iff)
  from gt have "set (map cid (courseList s)) \<inter> set (map cid cs) = {}"
    by fastforce
  with d have "distinct (map cid (courseList s)) \<longrightarrow> distinct (map cid (courseList s @ cs))"
    by simp
  with run cs inc gt
  show "\<exists>cs. fst (createCourses ps s) = map Some cs \<and> length cs = length ps
            \<and> courseList (snd (createCourses ps s)) = courseList s @ cs
            \<and> (\<forall>k < length cs. cid (cs ! k) = next_id (courseList s @ take k cs))
            \<and> sorted_wrt (<) (map cid cs)
            \<and> (\<forall>c\<in>set cs. \<forall>c0\<in>set (courseList s). cid c0 < cid c)
            \<and> (distinct (map cid (courseList s)) \<longrightarrow> distinct (map cid (courseList s @ cs)))"
    by (intro exI [of _ cs]) simp
next
  let ?base = "first_load qs (courseList s)"
  from assms(2) have t: "\<forall>(p, f)\<in>set qs. has_title p" by (simp add: list_all_iff)
  from createCourses_remote_run [OF t, of s] obtain cs where
    cs: "fst (createCourses_remote qs s) = map Some cs" "length cs = length qs"
        "courseList (snd (createCourses_remote qs s)) = ?base @ cs"
        "\<forall>k < length cs. cid (cs ! k) = next_id (?base @ take k cs)"
    by blast
  from ids_increasing [OF cs(4)] have
    inc: "sorted_wrt (<) (map cid cs)" and gt: "\<forall>c\<in>set cs. \<forall>c0\<in>set ?base. cid c0 < cid c"
    by simp_all
  from inc have d: "distinct (map cid cs)"
    by (simp add: strict_sorted_iff)
  from gt have "set (map cid ?base) \<inter> set (map cid cs) = {}"
    by fastforce
  with d have "distinct (map cid ?base) \<longrightarrow> distinct (map cid (?base @ cs))"
    by simp
  with cs inc gt
  show "\<exists>cs. fst (createCourses_remote qs s) = map Some cs \<and> length cs = length qs
            \<and> courseList (snd (createCourses_remote qs s)) = ?base @ cs
            \<and> (\<forall>k < length cs. cid (cs ! k) = next_id (?base @ take k cs))
            \<and> sorted_wrt (<) (map cid cs)
            \<and> (\<forall>c\<in>set cs. \<forall>c0\<in>set ?base. cid c0 < cid c)
            \<and> (distinct (map cid ?base) \<longrightarrow> distinct (map cid (?base @ cs)))"
    by (intro exI [of _ cs]) simp
next
  assume "distinct (map cid (courseList s))"
  with assms(3) show "distinct (map cid (courseList (fold perform ops s)))"
    by (rule distinct_ids_run)
next
  assume a: "getCourse i s \<noteq> None \<and> 0 < i \<and> distinct (map cid (courseList s))
              \<and> (\<forall>c\<in>set (courseList s). cid c \<le> i)"
  then have g: "getCourse i s \<noteq> None" and pos: "0 < i"
    and d: "distinct (map cid (courseList s))" and mx: "\<forall>c\<in>set (courseList s). cid c \<le> i"
    by simp_all
  let ?rest = "splice1 (nat (findCourseIndex i s)) (courseList s)"
  note cd = create_after_delete [OF g assms(4)]
  note nx = next_id_after_deleting_largest [OF g pos d mx]
  show "fst (deleteCourse i s)" by (rule cd(1))
  show "fst (deleteCourse_remote i (HttpOk ()) s)" by (rule cd(4))
  have "cid (newCourse p (next_id ?rest)) = next_id (courseList (snd (deleteCourse i s)))
          \<and> cid (newCourse p (next_id ?rest)) \<le> i
          \<and> ((\<exists>c0\<in>set (courseList s). cid c0 = i - 1) \<longrightarrow> cid (newCourse p (next_id ?rest)) = i)"
    using nx by (simp add: cd(2))
  with cd(3)
  show "\<exists>c. fst (createCourse (Some p) (snd (deleteCourse i s))) = Some c
                  \<and> cid c = next_id (courseList (snd (deleteCourse i s)))
                  \<and> cid c \<le> i
                  \<and> ((\<exists>c0\<in>set (courseList s). cid c0 = i - 1) \<longrightarrow> cid c = i)"
    by blast
  let ?c = "newCourse p (next_id (after_load fetched ?rest))"
  have "cid ?c = next_id (after_load fetched
                    (courseList (snd (deleteCourse_remote i (HttpOk ()) s))))
          \<and> (courseList (snd (deleteCourse_remote i (HttpOk ()) s)) \<noteq> [] \<longrightarrow> cid ?c \<le> i)
          \<and> ((\<exists>c0\<in>set (courseList s). cid c0 = i - 1) \<longrightarrow> cid ?c = i)"
    using nx by (auto simp: cd(5) after_load_nonempty)
  with cd(6) [of fetched]
  show "\<exists>c. fst (createCourse_remote (Some p) fetched (HttpOk ())
                          (snd (deleteCourse_remote i (HttpOk ()) s))) = Some c
                  \<and> cid c = next_id (after_load fetched
                                      (courseList (snd (deleteCourse_remote i (HttpOk ()) s))))
                  \<and> (courseList (snd (deleteCourse_remote i (HttpOk ()) s)) \<noteq> [] \<longrightarrow> cid c \<le> i)
                  \<and> ((\<exists>c0\<in>set (courseList s). cid c0 = i - 1) \<longrightarrow> cid c = i)"
    by blast
qed

lemma three_courses_catalog:
  "courseList three_courses = seed @ [newCourse (titled ''A'') 3]"
  by (simp add: three_courses_def createCourse_titled has_title_def titled_def seeded_repo_def
      next_id_def seed_def)

text \<open>
  Two courses created on the seeded catalog get the ids 3 and 4, in either module; a
  run of creations and deletions on it ends with the ids 2, 3, 4; after course 3 of
  the ids 1, 2, 3 is deleted the next course gets 3 again; after course 5 of the ids 1,
  5 is deleted the next course gets 2.
\<close>

theorem createCourse_ids_witness:
  "list_all has_title [titled ''A'', titled ''B'']
   \<and> list_all (\<lambda>(p, fetched). has_title p) [(titled ''A'', HttpOk seed), (titled ''B'', NetworkError)]
   \<and> list_all create_or_delete
        [OpCreate (Some (titled ''A'')), OpDelete 1, OpCreate (Some (titled ''B'')),
         OpCourseDeletion 4, OpCreate (Some (titled ''C''))]
   \<and> has_title (titled ''B'')
   \<and> map (map_option cid) (fst (createCourses [titled ''A'', titled ''B''] seeded_repo))
       = [Some 3, Some 4]
   \<and> map (map_option cid)
        (fst (createCourses_remote [(titled ''A'', HttpOk seed), (titled ''B'', NetworkError)] empty_repo))
       = [Some 3, Some 4]
   \<and> (\<exists>cs. fst (createCourses [titled ''A'', titled ''B''] seeded_repo) = map Some cs
          \<and> sorted_wrt (<) (map cid cs)
          \<and> distinct (map cid (courseList seeded_repo @ cs)))
   \<and> (\<exists>cs. fst (createCourses_remote [(titled ''A'', HttpOk seed), (titled ''B'', NetworkError)]
                 empty_repo) = map Some cs
          \<and> sorted_wrt (<) (map cid cs)
          \<and> distinct (map cid (seed @ cs)))
   \<and> distinct (map cid (courseList seeded_repo))
   \<and> distinct (map cid (courseList (fold perform
        [OpCreate (Some (titled ''A'')), OpDelete 1, OpCreate (Some (titled ''B'')),
         OpCourseDeletion 4, OpCreate (Some (titled ''C''))] seeded_repo)))
   \<and> map cid (courseList (fold perform
        [OpCreate (Some (titled ''A'')), OpDelete 1, OpCreate (Some (titled ''B'')),
         OpCourseDeletion 4, OpCreate (Some (titled ''C''))] seeded_repo)) = [2, 3, 4]
   \<and> getCourse 3 three_courses \<noteq> None \<and> map cid (courseList three_courses) = [1, 2, 3]
   \<and> (\<exists>c. fst (createCourse (Some (titled ''B'')) (snd (deleteCourse 3 three_courses))) = Some c
          \<and> cid c = 3)
   \<and> getCourse 5 gapped \<noteq> None \<and> map cid (courseList gapped) = [1, 5]
   \<and> (\<exists>c. fst (createCourse (Some (titled ''B'')) (snd (deleteCourse 5 gapped))) = Some c
          \<and> cid c = 2 \<and> cid c \<le> 5)"
proof -
  let ?qs = "[(titled ''A'', HttpOk seed), (titled ''B'', NetworkError)]"
  let ?ops = "[OpCreate (Some (titled ''A'')), OpDelete 1, OpCreate (Some (titled ''B'')),
         OpCourseDeletion 4, OpCreate (Some (titled ''C''))]"
  have t: "has_title (titled ''A'')" "has_title (titled ''B'')" "has_title (titled ''C'')"
    by (simp_all add: has_title_def titled_def)
  have h: "list_all has_title [titled ''A'', titled ''B'']"
    by (simp add: t)
  have h': "list_all (\<lambda>(p, fetched). has_title p) ?qs"
    by (simp add: t)
  have h'': "list_all create_or_delete ?ops"
    by (simp add: t)
  have d: "distinct (map cid (courseList seeded_repo))" "distinct (map cid seed)"
    by (simp_all add: seeded_repo_def seed_def)
  have fl: "first_load ?qs (courseList empty_repo) = seed"
    by (simp add: first_load_def after_load_def empty_repo_def)
  have sn: "seed \<noteq> []" by (simp add: seed_def)
  have n: "next_id seed = 3"
    "next_id (seed @ [newCourse (titled ''A'') 3]) = 4"
    by (simp_all add: next_id_def seed_def)
  have v: "map (map_option cid) (fst (createCourses [titled ''A'', titled ''B''] seeded_repo))
             = [Some 3, Some 4]"
    by (simp add: createCourse_titled t seeded_repo_def n split_def)
  have v': "map (map_option cid) (fst (createCourses_remote ?qs empty_repo)) = [Some 3, Some 4]"
    by (simp add: createCourse_remote_ok t split_def after_load_def empty_repo_def sn n)
  have run: "map cid (courseList (fold perform ?ops seeded_repo)) = [2, 3, 4]"
    by (simp add: createCourse_def has_title_def newCourse_def generateUniqueCourseId_def
        saveCourses_def deleteCourse_def courseDeletion_def findCourseIndex_def splice1_def
        titled_def seeded_repo_def empty_repo_def seed_def Let_def)
  have g3: "getCourse 3 three_courses \<noteq> None" "map cid (courseList three_courses) = [1, 2, 3]"
    "distinct (map cid (courseList three_courses))"
    "\<forall>c\<in>set (courseList three_courses). cid c \<le> 3"
    "\<exists>c0\<in>set (courseList three_courses). cid c0 = 3 - 1"
    by (simp_all add: getCourse_def three_courses_catalog seed_def)
  have g5: "getCourse 5 gapped \<noteq> None" "map cid (courseList gapped) = [1, 5]"
    "distinct (map cid (courseList gapped))" "\<forall>c\<in>set (courseList gapped). cid c \<le> 5"
    by (simp_all add: getCourse_def gapped_def seed_def)
  have two: "next_id (courseList (snd (deleteCourse 5 gapped))) = 2"
    by (simp add: courseList_deleteCourse findCourseIndex_def splice1_def next_id_def gapped_def
        seed_def)
  note th = createCourse_ids [OF h h' h'' t(2)]
  from th [where s = seeded_repo] d(1)
  have l: "\<exists>cs. fst (createCourses [titled ''A'', titled ''B''] seeded_repo) = map Some cs
          \<and> sorted_wrt (<) (map cid cs)
          \<and> distinct (map cid (courseList seeded_repo @ cs))"
    by blast
  from th [where s = empty_repo] d(2)
  have r: "\<exists>cs. fst (createCourses_remote ?qs empty_repo) = map Some cs
          \<and> sorted_wrt (<) (map cid cs)
          \<and> distinct (map cid (seed @ cs))"
    unfolding fl by blast
  from th [where s = seeded_repo] d(1)
  have o: "distinct (map cid (courseList (fold perform ?ops seeded_repo)))"
    by blast
  have p3: "getCourse 3 three_courses \<noteq> None \<and> (0::int) < 3
              \<and> distinct (map cid (courseList three_courses))
              \<and> (\<forall>c\<in>set (courseList three_courses). cid c \<le> 3)"
    using g3 by simp
  have p5: "getCourse 5 gapped \<noteq> None \<and> (0::int) < 5
              \<and> distinct (map cid (courseList gapped))
              \<and> (\<forall>c\<in>set (courseList gapped). cid c \<le> 5)"
    using g5 by simp
  note after_delete = th [THEN conjunct2, THEN conjunct2, THEN conjunct2, THEN mp]
  from after_delete [OF p3]
  have "\<exists>c. fst (createCourse (Some (titled ''B'')) (snd (deleteCourse 3 three_courses))) = Some c
          \<and> ((\<exists>c0\<in>set (courseList three_courses). cid c0 = 3 - 1) \<longrightarrow> cid c = 3)"
    by blast
  with g3(5)
  have a: "\<exists>c. fst (createCourse (Some (titled ''B'')) (snd (deleteCourse 3 three_courses))) = Some c
          \<and> cid c = 3"
    by blast
  from after_delete [OF p5]
  have "\<exists>c. fst (createCourse (Some (titled ''B'')) (snd (deleteCourse 5 gapped))) = Some c
          \<and> cid c = next_id (courseList (snd (deleteCourse 5 gapped))) \<and> cid c \<le> 5"
    by blast
  then have b: "\<exists>c. fst (createCourse (Some (titled ''B'')) (snd (deleteCourse 5 gapped))) = Some c
          \<and> cid c = 2 \<and> cid c \<le> 5"
    unfolding two .
  from h h' h'' t(2) v v' l r d(1) o run g3(1,2) a g5(1,2) b show ?thesis
    by (intro conjI)
qed

text \<open>
  An id is handed out a second time: on the seeded catalog a created course gets id 3,
  \<^verbatim>\<open>deleteCourse(3)\<close> succeeds, and the next created course gets id 3 once more.
\<close>

theorem createCourse_reuses_id:
  "map_option cid (fst (createCourse (Some (titled ''A'')) seeded_repo)) = Some 3
   \<and> fst (deleteCourse 3 (snd (createCourse (Some (titled ''A'')) seeded_repo)))
   \<and> map_option cid (fst (createCourse (Some (titled ''B''))
        (snd (deleteCourse 3 (snd (createCourse (Some (titled ''A'')) seeded_repo)))))) = Some 3"
  by (simp add: createCourse_def deleteCourse_def generateUniqueCourseId_def findCourseIndex_def
      has_title_def titled_def seeded_repo_def empty_repo_def seed_def saveCourses_def splice1_def Let_def)

end
